theory Spec2Isabelle
  imports Complex_Main "HOL-Library.Word" "HOL-Library.Multiset"
begin

unbundle bit_operations_syntax

section \<open>Error correction module (createErrorCorrection)\<close>

text \<open>
  The closure state of \<open>createErrorCorrection\<close>: the \<open>config\<close> object and the
  \<open>errorStats\<close> object. Bytes of a \<open>Uint8Array\<close> are 8-bit words. JavaScript
  numbers are modelled exactly: \<open>strength\<close> is an integer, the quotients
  \<open>data.length / 4 * strength\<close> are rationals.
\<close>

type_synonym byte = "8 word"

record ec_state =
  mode :: string
  strength :: int
  adaptive :: bool
  windowSize :: nat
  detectedErrors :: int
  totalPackets :: nat
  errorHistory :: "nat list"

record ec_result =
  rdata :: "byte list"
  errors :: nat
  corrected :: nat
  valid :: bool

datatype ec_error = InvalidHammingLength | RangeError

text \<open>\<open>createErrorCorrection(options)\<close>: absent or falsy options take the defaults.\<close>

definition createErrorCorrection :: "string option \<Rightarrow> int option \<Rightarrow> bool option \<Rightarrow> ec_state" where
  "createErrorCorrection omode ostrength oadaptive =
     \<lparr> mode = (case omode of None \<Rightarrow> ''hamming'' | Some m \<Rightarrow> if m = [] then ''hamming'' else m),
       strength = (case ostrength of None \<Rightarrow> 1 | Some s \<Rightarrow> if s = 0 then 1 else s),
       adaptive = (case oadaptive of None \<Rightarrow> True | Some a \<Rightarrow> a),
       windowSize = 100,
       detectedErrors = 0,
       totalPackets = 0,
       errorHistory = [] \<rparr>"

definition getCurrentErrorRate :: "ec_state \<Rightarrow> rat" where
  "getCurrentErrorRate s =
     (if length (errorHistory s) = 0 then 0
      else of_int (detectedErrors s) / of_nat (length (errorHistory s)))"

definition adjustStrength :: "ec_state \<Rightarrow> ec_state" where
  "adjustStrength s =
     (let errorRate = getCurrentErrorRate s in
      if errorRate > 1 / 10 then s\<lparr>strength := min (strength s + 1) 8\<rparr>
      else if errorRate < 1 / 100 \<and> strength s > 1 then s\<lparr>strength := max (strength s - 1) 1\<rparr>
      else s)"

definition updateErrorStats :: "bool \<Rightarrow> ec_state \<Rightarrow> ec_state" where
  "updateErrorStats hasError s =
     (let s1 = s\<lparr>totalPackets := totalPackets s + 1\<rparr>;
          s2 = (if hasError then s1\<lparr>detectedErrors := detectedErrors s1 + 1\<rparr> else s1);
          s3 = s2\<lparr>errorHistory := errorHistory s2 @ [if hasError then 1 else 0]\<rparr>;
          s4 = (if length (errorHistory s3) > windowSize s3
                then (let oldest = hd (errorHistory s3);
                          s3' = s3\<lparr>errorHistory := tl (errorHistory s3)\<rparr>
                      in if oldest = 1 then s3'\<lparr>detectedErrors := detectedErrors s3' - 1\<rparr> else s3')
                else s3)
      in if adaptive s4 then adjustStrength s4 else s4)"

text \<open>\<open>calculateParity\<close>: the loop body runs once for every integer \<open>i < strength\<close>.\<close>

definition parityRound :: "byte \<Rightarrow> byte" where
  "parityRound p = (p XOR push_bit 1 p) AND 0xFF"

definition calculateParity :: "byte \<Rightarrow> int \<Rightarrow> byte" where
  "calculateParity b st = (parityRound ^^ nat st) b"

definition hammingEncode :: "ec_state \<Rightarrow> byte list \<Rightarrow> byte list" where
  "hammingEncode s dat = concat (map (\<lambda>b. [b, calculateParity b (strength s)]) dat)"

text \<open>
  The loop of \<open>hammingDecode\<close> over the pairs (data byte, parity byte); the
  accumulator is (\<open>decoded\<close>, \<open>errorCount\<close>).
\<close>

fun hammingLoop :: "int \<Rightarrow> byte list \<Rightarrow> byte list \<times> nat \<Rightarrow> byte list \<times> nat" where
  "hammingLoop st (dataByte # parityByte # rest) (decoded, errorCount) =
     hammingLoop st rest
       (decoded @ [dataByte],
        if parityByte \<noteq> calculateParity dataByte st then errorCount + 1 else errorCount)"
| "hammingLoop st rest acc = acc"

definition hammingDecode :: "ec_state \<Rightarrow> byte list \<Rightarrow> ec_error + (ec_result \<times> ec_state)" where
  "hammingDecode s encoded =
     (if length encoded mod 2 \<noteq> 0 then Inl InvalidHammingLength
      else (let (decoded, errorCount) = hammingLoop (strength s) encoded ([], 0)
            in Inr (\<lparr> rdata = decoded, errors = errorCount, corrected = 0, valid = True \<rparr>,
                    updateErrorStats (errorCount > 0) s)))"

subsection \<open>The simplified Reed-Solomon (checksum) path\<close>

text \<open>
  The checksum is computed with JavaScript's 32-bit bitwise operators, whose results
  are signed 32-bit integers: the comparison \<open>checksum > 0x80000000\<close> reads the signed
  value. The constant \<open>0x104C11DB7\<close> is truncated to 32 bits by the operator.
\<close>

definition checksumStep :: "32 word \<Rightarrow> 32 word \<Rightarrow> 32 word" where
  "checksumStep checksum d =
     (let c = (push_bit 8 checksum XOR d) AND 0xFFFFFFFF
      in if sint c > 0x80000000 then (c XOR 0x104C11DB7) AND 0xFFFFFFFF else c)"

text \<open>Reading \<open>data[i]\<close> inside a bitwise expression: \<open>undefined\<close> out of range becomes 0.\<close>

definition byteAt :: "byte list \<Rightarrow> nat \<Rightarrow> 32 word" where
  "byteAt xs i = (if i < length xs then ucast (xs ! i) else 0)"

text \<open>A loop \<open>for (i = 0; i < bound; i++)\<close> with a rational bound visits these indices.\<close>

definition loopRange :: "rat \<Rightarrow> nat list" where
  "loopRange bound = [0..<nat \<lceil>bound\<rceil>]"

definition rsChecksum :: "byte list \<Rightarrow> rat \<Rightarrow> 32 word" where
  "rsChecksum dat bound = foldl (\<lambda>c i. checksumStep c (byteAt dat i)) 0 (loopRange bound)"

text \<open>\<open>ToIntegerOrInfinity\<close>: truncation towards zero.\<close>

definition truncRat :: "rat \<Rightarrow> int" where
  "truncRat x = (if x < 0 then \<lceil>x\<rceil> else \<lfloor>x\<rfloor>)"

text \<open>A store into a typed array; an index out of range is ignored.\<close>

definition typedSet :: "byte list \<Rightarrow> nat \<Rightarrow> byte \<Rightarrow> byte list" where
  "typedSet xs i v = (if i < length xs then xs[i := v] else xs)"

definition rsChecksumLengthEnc :: "ec_state \<Rightarrow> nat \<Rightarrow> rat" where
  "rsChecksumLengthEnc s len = min 32 (of_nat len / 4 * of_int (strength s))"

definition reedSolomonEncode :: "ec_state \<Rightarrow> byte list \<Rightarrow> ec_error + byte list" where
  "reedSolomonEncode s dat =
     (let checksumLength = rsChecksumLengthEnc s (length dat);
          encLen = truncRat (of_nat (length dat) + checksumLength)
      in if encLen < int (length dat) then Inl RangeError
         else (let encoded0 = dat @ replicate (nat encLen - length dat) 0;
                   checksum = rsChecksum dat (of_nat (length dat))
               in Inr (foldl (\<lambda>enc i. typedSet enc (length dat + i)
                                 (ucast (signed_drop_bit ((i * 8) mod 32) checksum AND 0xFF)))
                         encoded0 (loopRange checksumLength))))"

text \<open>\<open>encoded.slice(0, end)\<close> with a rational \<open>end\<close>.\<close>

definition sliceTo :: "'a list \<Rightarrow> rat \<Rightarrow> 'a list" where
  "sliceTo xs e =
     (let rel = truncRat e;
          fin = (if rel < 0 then max (int (length xs) + rel) 0 else min rel (int (length xs)))
      in take (nat fin) xs)"

text \<open>
  \<open>encoded[dataLength + i]\<close>: an index that is not a non-negative integer below the
  length reads \<open>undefined\<close>, which the shift turns into 0.
\<close>

definition byteAtRat :: "byte list \<Rightarrow> rat \<Rightarrow> 32 word" where
  "byteAtRat xs q =
     (if q = of_int \<lfloor>q\<rfloor> \<and> 0 \<le> q \<and> nat \<lfloor>q\<rfloor> < length xs then ucast (xs ! nat \<lfloor>q\<rfloor>) else 0)"

definition rsChecksumLengthDec :: "ec_state \<Rightarrow> nat \<Rightarrow> rat" where
  "rsChecksumLengthDec s len = min 32 ((of_nat len / 5) * of_int (strength s))"

definition reedSolomonDecode :: "ec_state \<Rightarrow> byte list \<Rightarrow> ec_result \<times> ec_state" where
  "reedSolomonDecode s encoded =
     (let checksumLength = rsChecksumLengthDec s (length encoded);
          dataLength = of_nat (length encoded) - checksumLength;
          dat = sliceTo encoded dataLength;
          expectedChecksum = rsChecksum dat dataLength;
          actualChecksum = foldl (\<lambda>a i. a OR push_bit ((i * 8) mod 32)
                                       (byteAtRat encoded (dataLength + of_nat i)))
                             (0 :: 32 word) (loopRange checksumLength);
          hasError = ((expectedChecksum AND 0xFFFFFFFF) \<noteq> (actualChecksum AND 0xFFFFFFFF))
      in (\<lparr> rdata = dat, errors = (if hasError then 1 else 0), corrected = 0,
            valid = (\<not> hasError) \<rparr>,
          updateErrorStats hasError s))"

definition ec_encode :: "ec_state \<Rightarrow> byte list \<Rightarrow> ec_error + byte list" where
  "ec_encode s dat =
     (if mode s = ''hamming'' then Inr (hammingEncode s dat)
      else if mode s = ''reed-solomon'' then reedSolomonEncode s dat
      else Inr dat)"

definition ec_decode :: "ec_state \<Rightarrow> byte list \<Rightarrow> ec_error + (ec_result \<times> ec_state)" where
  "ec_decode s encoded =
     (if mode s = ''hamming'' then hammingDecode s encoded
      else if mode s = ''reed-solomon'' then Inr (reedSolomonDecode s encoded)
      else Inr (\<lparr> rdata = encoded, errors = 0, corrected = 0, valid = True \<rparr>, s))"




section \<open>Encoder: text to colour sequence\<close>

text \<open>
  A JavaScript number that may be \<open>NaN\<close>, and an array element that may be
  \<open>undefined\<close>. Message text is a list of UTF-16 code units; binary strings and colour
  codes are character strings.
\<close>

datatype jsnum = NaN | Num int

datatype color = Undefined | Color string

type_synonym jsstring = "nat list"

definition COLORS :: "color list" where
  "COLORS = [Color ''#FF0000'', Color ''#00FF00'', Color ''#0000FF'', Color ''#FFFF00'',
             Color ''#FF00FF'', Color ''#00FFFF'', Color ''#FFFFFF'', Color ''#000000'']"

definition START_SIGNAL :: color where "START_SIGNAL = Color ''#FF00FF''"
definition END_SIGNAL :: color where "END_SIGNAL = Color ''#0000FF''"
definition SYNC_SIGNAL :: color where "SYNC_SIGNAL = Color ''#FFFFFF''"
definition COLOR_BITS :: nat where "COLOR_BITS = 3"

text \<open>\<open>n.toString(2)\<close> for an integer \<open>n\<close>.\<close>

fun binDigits :: "nat \<Rightarrow> string" where
  "binDigits n =
     (if n < 2 then [if n = 0 then CHR ''0'' else CHR ''1'']
      else binDigits (n div 2) @ [if n mod 2 = 0 then CHR ''0'' else CHR ''1''])"

declare binDigits.simps [simp del]

definition toString2 :: "int \<Rightarrow> string" where
  "toString2 i = (if i < 0 then CHR ''-'' # binDigits (nat (- i)) else binDigits (nat i))"

definition padStart :: "nat \<Rightarrow> char \<Rightarrow> string \<Rightarrow> string" where
  "padStart n c s = replicate (n - length s) c @ s"

definition padEnd :: "nat \<Rightarrow> char \<Rightarrow> string \<Rightarrow> string" where
  "padEnd n c s = s @ replicate (n - length s) c"

text \<open>
  \<open>parseInt(s, 2)\<close>: an optional sign, then the longest prefix of binary digits;
  \<open>NaN\<close> when there is none. (The strings parsed here hold no white space.)
\<close>

definition isBinDigit :: "char \<Rightarrow> bool" where
  "isBinDigit c = (c = CHR ''0'' \<or> c = CHR ''1'')"

definition binValue :: "string \<Rightarrow> int" where
  "binValue ds = foldl (\<lambda>a c. 2 * a + (if c = CHR ''1'' then 1 else 0)) 0 ds"

definition parseInt2 :: "string \<Rightarrow> jsnum" where
  "parseInt2 s =
     (let neg = (case s of [] \<Rightarrow> False | c # cs \<Rightarrow> c = CHR ''-'');
          rest = (case s of [] \<Rightarrow> [] | c # cs \<Rightarrow> if c = CHR ''-'' \<or> c = CHR ''+'' then cs else s);
          ds = takeWhile isBinDigit rest
      in if ds = [] then NaN else Num (if neg then - binValue ds else binValue ds))"

text \<open>
  \<open>Array.from(text)\<close> splits a string into code points: a surrogate pair is one
  element, of which \<open>charCodeAt(0)\<close> reads the first code unit.
\<close>

fun arrayFrom :: "jsstring \<Rightarrow> jsstring list" where
  "arrayFrom (c # d # cs) =
     (if 0xD800 \<le> c \<and> c \<le> 0xDBFF \<and> 0xDC00 \<le> d \<and> d \<le> 0xDFFF
      then [c, d] # arrayFrom cs else [c] # arrayFrom (d # cs))"
| "arrayFrom [c] = [[c]]"
| "arrayFrom [] = []"

definition charCodeAt0 :: "jsstring \<Rightarrow> nat" where
  "charCodeAt0 ch = (case ch of [] \<Rightarrow> 0 | c # cs \<Rightarrow> c)"

definition textToBinary :: "jsstring \<Rightarrow> string" where
  "textToBinary text =
     concat (map (\<lambda>ch. padStart 8 CHR ''0'' (toString2 (int (charCodeAt0 ch)))) (arrayFrom text))"

text \<open>
  The loop \<open>for (i = 0; i < xs.length; i += k) push(xs.slice(i, i + k))\<close>. Its callers
  pass a positive \<open>k\<close> (3, 8, or a positive payload size).
\<close>

function chunksOf :: "nat \<Rightarrow> 'a list \<Rightarrow> 'a list list" where
  "chunksOf k xs = (if k = 0 \<or> xs = [] then [] else take k xs # chunksOf k (drop k xs))"
  by pat_completeness auto
termination
  by (relation "measure (\<lambda>(k, xs). length xs)") auto

declare chunksOf.simps [simp del]

definition binaryToColorIndexes :: "string \<Rightarrow> jsnum list" where
  "binaryToColorIndexes binary =
     map (\<lambda>chunk. parseInt2 (padEnd COLOR_BITS CHR ''0'' chunk)) (chunksOf COLOR_BITS binary)"

text \<open>Addition and remainder of JavaScript numbers; \<open>%\<close> takes the sign of the dividend.\<close>

definition jsAdd :: "jsnum \<Rightarrow> jsnum \<Rightarrow> jsnum" where
  "jsAdd a b = (case (a, b) of (Num x, Num y) \<Rightarrow> Num (x + y) | _ \<Rightarrow> NaN)"

definition jsRem :: "int \<Rightarrow> int \<Rightarrow> int" where
  "jsRem a b = sgn a * (\<bar>a\<bar> mod \<bar>b\<bar>)"

definition jsRem8 :: "jsnum \<Rightarrow> jsnum" where
  "jsRem8 a = (case a of NaN \<Rightarrow> NaN | Num x \<Rightarrow> Num (jsRem x 8))"

definition calculateChecksum :: "jsnum list \<Rightarrow> jsnum" where
  "calculateChecksum colorIndexes = jsRem8 (foldl jsAdd (Num 0) colorIndexes)"

text \<open>\<open>COLORS[index]\<close>: \<open>undefined\<close> unless the index is one of 0..7.\<close>

definition colorAt :: "jsnum \<Rightarrow> color" where
  "colorAt ix =
     (case ix of NaN \<Rightarrow> Undefined
      | Num i \<Rightarrow> if 0 \<le> i \<and> i < int (length COLORS) then COLORS ! nat i else Undefined)"

definition encodeText :: "jsstring \<Rightarrow> color list" where
  "encodeText text =
     (let binary = textToBinary text;
          colorIndexes = binaryToColorIndexes binary;
          checksum = calculateChecksum colorIndexes;
          colorSequence = map colorAt colorIndexes
      in [START_SIGNAL, SYNC_SIGNAL] @ colorSequence @ [colorAt checksum, SYNC_SIGNAL, END_SIGNAL])"

definition createMetadataHeader :: "jsstring \<Rightarrow> color list" where
  "createMetadataHeader text =
     (let lengthBinary = padStart 8 CHR ''0'' (toString2 (int (length text)));
          lengthColorIndexes = binaryToColorIndexes lengthBinary
      in map colorAt lengthColorIndexes)"

datatype codec_error =
  EmptyMessage | TooShort | NoStartSignal | NoEndSignal | NoSyncSignal | NoFinalSyncSignal
  | ChecksumFailed

record encoded =
  colors :: "color list"
  originalText :: jsstring
  textLength :: nat
  binaryLength :: nat
  colorCount :: nat

definition encode :: "jsstring \<Rightarrow> codec_error + encoded" where
  "encode text =
     (if length text = 0 then Inl EmptyMessage
      else (let metadataHeader = createMetadataHeader text;
                messageSequence = encodeText text;
                fullSequence = [START_SIGNAL] @ metadataHeader @ [SYNC_SIGNAL] @ drop 1 messageSequence
            in Inr \<lparr> colors = fullSequence, originalText = text, textLength = length text,
                     binaryLength = length (textToBinary text),
                     colorCount = length messageSequence \<rparr>))"

section \<open>Decoder: colour sequence to text\<close>

text \<open>\<open>indexOf\<close> and \<open>lastIndexOf\<close>; \<open>None\<close> stands for the result -1.\<close>

fun indexFrom :: "'a \<Rightarrow> nat \<Rightarrow> 'a list \<Rightarrow> nat option" where
  "indexFrom x i [] = None"
| "indexFrom x i (y # ys) = (if y = x then Some i else indexFrom x (Suc i) ys)"

definition indexOf :: "'a list \<Rightarrow> 'a \<Rightarrow> nat \<Rightarrow> nat option" where
  "indexOf xs x fromIndex = indexFrom x fromIndex (drop fromIndex xs)"

text \<open>
  \<open>xs.lastIndexOf(x, fromIndex)\<close>: a negative \<open>fromIndex\<close> counts from the end of
  the array (\<open>length + fromIndex\<close>); the search runs backwards from there.
\<close>

definition lastIndexOf :: "'a list \<Rightarrow> 'a \<Rightarrow> int \<Rightarrow> nat option" where
  "lastIndexOf xs x fromIndex =
     (let len = int (length xs);
          k = (if fromIndex \<ge> 0 then min fromIndex (len - 1) else len + fromIndex)
      in if k < 0 then None
         else (case indexFrom x 0 (rev (take (nat k + 1) xs)) of
                 None \<Rightarrow> None
               | Some j \<Rightarrow> Some (nat k - j)))"

definition slice :: "'a list \<Rightarrow> nat \<Rightarrow> nat \<Rightarrow> 'a list" where
  "slice xs a b = take (b - a) (drop a xs)"

definition colorToIndex :: "color \<Rightarrow> int" where
  "colorToIndex c = (case indexFrom c 0 COLORS of None \<Rightarrow> - 1 | Some i \<Rightarrow> int i)"

definition colorIndexesToBinary :: "int list \<Rightarrow> string" where
  "colorIndexesToBinary colorIndexes =
     concat (map (\<lambda>index. padStart COLOR_BITS CHR ''0'' (toString2 index)) colorIndexes)"

text \<open>\<open>String.fromCharCode\<close> reduces its argument to 16 bits; \<open>NaN\<close> becomes 0.\<close>

definition fromCharCode :: "jsnum \<Rightarrow> nat" where
  "fromCharCode v = (case v of NaN \<Rightarrow> 0 | Num i \<Rightarrow> nat (i mod 65536))"

definition binaryToText :: "string \<Rightarrow> jsstring" where
  "binaryToText binary =
     map (\<lambda>byte. fromCharCode (parseInt2 (padEnd 8 CHR ''0'' byte))) (chunksOf 8 binary)"

definition verifyChecksum :: "int list \<Rightarrow> int \<Rightarrow> bool" where
  "verifyChecksum colorIndexes receivedChecksum =
     (let calculatedSum = foldl (+) 0 colorIndexes;
          calculatedChecksum = jsRem calculatedSum 8
      in calculatedChecksum = receivedChecksum)"

text \<open>\<open>extractMessageLength\<close>: \<open>None\<close> is the result \<open>null\<close>.\<close>

definition extractMessageLength :: "color list \<Rightarrow> jsnum option" where
  "extractMessageLength colorSequence =
     (case indexOf colorSequence START_SIGNAL 0 of
        None \<Rightarrow> None
      | Some startIndex \<Rightarrow>
          (case indexOf colorSequence SYNC_SIGNAL (startIndex + 1) of
             None \<Rightarrow> None
           | Some syncIndex \<Rightarrow>
               (let metadataColors = slice colorSequence (startIndex + 1) syncIndex
                in if length metadataColors = 0 then None
                   else (let metadataIndexes = map colorToIndex metadataColors;
                             metadataBinary = colorIndexesToBinary metadataIndexes;
                             lengthBinary = take 8 metadataBinary
                         in Some (parseInt2 lengthBinary)))))"

text \<open>
  The result of \<open>decode\<close>; \<open>lengthWarning\<close> records that \<open>console.warn\<close> reported
  a length mismatch.
\<close>

record decoded =
  dtext :: jsstring
  checksumValid :: bool
  expectedLength :: "jsnum option"
  actualLength :: nat
  dcolorCount :: nat
  lengthWarning :: bool

text \<open>\<open>decode\<close>; the argument \<open>None\<close> is a \<open>null\<close> sequence.\<close>

definition decode :: "color list option \<Rightarrow> codec_error + decoded" where
  "decode cso =
     (case cso of
        None \<Rightarrow> Inl TooShort
      | Some colorSequence \<Rightarrow>
     if length colorSequence < 5 then Inl TooShort
     else (case indexOf colorSequence START_SIGNAL 0 of
        None \<Rightarrow> Inl NoStartSignal
      | Some startIndex \<Rightarrow>
     (case lastIndexOf colorSequence END_SIGNAL (int (length colorSequence) - 1) of
        None \<Rightarrow> Inl NoEndSignal
      | Some endIndex \<Rightarrow>
     (let expectedLength = extractMessageLength colorSequence in
      case indexOf colorSequence SYNC_SIGNAL (startIndex + 1) of
        None \<Rightarrow> Inl NoSyncSignal
      | Some syncIndex \<Rightarrow>
     (case lastIndexOf colorSequence SYNC_SIGNAL (int endIndex - 1) of
        None \<Rightarrow> Inl NoFinalSyncSignal
      | Some lastSyncIndex \<Rightarrow>
     (let dataColors0 = slice colorSequence (syncIndex + 1) lastSyncIndex;
          checksumColor = (if dataColors0 = [] then Undefined else last dataColors0);
          dataColors = butlast dataColors0;
          checksumIndex = colorToIndex checksumColor;
          colorIndexes = map colorToIndex dataColors;
          checksumValid = verifyChecksum colorIndexes checksumIndex
      in if \<not> checksumValid then Inl ChecksumFailed
         else (let binary = colorIndexesToBinary colorIndexes;
                   text = binaryToText binary
               in Inr \<lparr> dtext = text, checksumValid = checksumValid,
                        expectedLength = expectedLength, actualLength = length text,
                        dcolorCount = length colorSequence,
                        lengthWarning = (expectedLength \<noteq> None
                                          \<and> expectedLength \<noteq> Some (Num (int (length text)))) \<rparr>)))))))"


section \<open>Decoding state machine (processReceivedColor)\<close>

record decodingState =
  collecting :: bool
  dcolors :: "color list"
  complete :: bool
  dmessage :: "decoded option"
  derror :: "codec_error option"

text \<open>\<open>processReceivedColor(state, color)\<close>; the state \<open>None\<close> is \<open>null\<close>.\<close>

definition processReceivedColor :: "decodingState option \<Rightarrow> color \<Rightarrow> decodingState" where
  "processReceivedColor state0 color =
     (let state = (case state0 of
                     None \<Rightarrow> \<lparr> collecting = False, dcolors = [], complete = False,
                               dmessage = None, derror = None \<rparr>
                   | Some st \<Rightarrow> st)
      in if color = START_SIGNAL
         then \<lparr> collecting = True, dcolors = [color], complete = False,
                dmessage = None, derror = None \<rparr>
         else if collecting state
         then (let updatedColors = dcolors state @ [color]
               in if color = END_SIGNAL
                  then (case decode (Some updatedColors) of
                          Inr result \<Rightarrow> \<lparr> collecting = False, dcolors = updatedColors,
                                          complete = True, dmessage = Some result, derror = None \<rparr>
                        | Inl err \<Rightarrow> \<lparr> collecting = False, dcolors = updatedColors,
                                       complete = True, dmessage = None, derror = Some err \<rparr>)
                  else state\<lparr>dcolors := updatedColors\<rparr>)
         else state)"

section \<open>Frame analyzer (signal classifier)\<close>

text \<open>
  Samples are RGB triples and timestamps are numbers; both are modelled as reals. The
  palette entries are parsed from their hex codes as \<open>hexToRgb\<close> does.
\<close>

definition hexDigit :: "char \<Rightarrow> nat" where
  "hexDigit c =
     (let n = (of_char c :: nat)
      in if 48 \<le> n \<and> n \<le> 57 then n - 48
         else if 65 \<le> n \<and> n \<le> 70 then n - 55
         else if 97 \<le> n \<and> n \<le> 102 then n - 87
         else 0)"

definition parseHex2 :: "string \<Rightarrow> real" where
  "parseHex2 s = real (foldl (\<lambda>a c. 16 * a + hexDigit c) 0 s)"

definition hexToRgb :: "string \<Rightarrow> real \<times> real \<times> real" where
  "hexToRgb hex0 =
     (let hex = (case hex0 of [] \<Rightarrow> [] | c # cs \<Rightarrow> if c = CHR ''#'' then cs else hex0)
      in (parseHex2 (take 2 hex), parseHex2 (take 2 (drop 2 hex)), parseHex2 (take 2 (drop 4 hex))))"

definition colorDistance :: "real \<times> real \<times> real \<Rightarrow> real \<times> real \<times> real \<Rightarrow> real" where
  "colorDistance rgb1 rgb2 =
     (case (rgb1, rgb2) of ((r1, g1, b1), (r2, g2, b2)) \<Rightarrow>
        sqrt ((r1 - r2)\<^sup>2 + (g1 - g2)\<^sup>2 + (b1 - b2)\<^sup>2))"

text \<open>
  \<open>findClosestColor\<close>: the accumulator is (\<open>minDistance\<close>, \<open>closestColor\<close>,
  \<open>closestIndex\<close>); the distance \<open>None\<close> is \<open>Infinity\<close>, the colour \<open>None\<close> is \<open>null\<close>.
\<close>

record colorMatch =
  mcolor :: "color option"
  mindex :: int
  mdistance :: "real option"

definition colorName :: "color \<Rightarrow> string" where
  "colorName c = (case c of Undefined \<Rightarrow> [] | Color s \<Rightarrow> s)"

definition closestStep :: "real \<times> real \<times> real \<Rightarrow> colorMatch \<Rightarrow> color \<times> nat \<Rightarrow> colorMatch" where
  "closestStep rgb acc ci =
     (let colorRgb = hexToRgb (colorName (fst ci));
          distance = colorDistance rgb colorRgb
      in if (case mdistance acc of None \<Rightarrow> True | Some m \<Rightarrow> distance < m)
         then \<lparr> mcolor = Some (fst ci), mindex = int (snd ci), mdistance = Some distance \<rparr>
         else acc)"

definition findClosestColor :: "real \<times> real \<times> real \<Rightarrow> colorMatch" where
  "findClosestColor rgb =
     foldl (closestStep rgb) \<lparr> mcolor = None, mindex = - 1, mdistance = None \<rparr>
       (zip COLORS [0..<length COLORS])"

record analyzer =
  threshold :: real
  minChangeTime :: real
  samplesRequired :: nat
  lastDetectedColor :: "color option"
  lastChangeTime :: real
  stableColorCount :: nat
  currentSamples :: "color option list"

definition createFrameAnalyzer :: "real \<Rightarrow> real \<Rightarrow> nat \<Rightarrow> analyzer" where
  "createFrameAnalyzer th mct sr =
     \<lparr> threshold = th, minChangeTime = mct, samplesRequired = sr,
       lastDetectedColor = None, lastChangeTime = 0, stableColorCount = 0, currentSamples = [] \<rparr>"

text \<open>
  \<open>analyzeColor(rgb, timestamp)\<close>: the new analyzer state and the return value
  (\<open>None\<close> for \<open>null\<close>). A returned colour is the detection event; the callback
  \<open>onColorDetected\<close> is invoked exactly when a value is returned. \<open>currentSamples[0]\<close> of
  an empty array is \<open>undefined\<close>.
\<close>

definition aboveThreshold :: "real option \<Rightarrow> real \<Rightarrow> bool" where
  "aboveThreshold d th = (case d of None \<Rightarrow> True | Some x \<Rightarrow> x > th)"

definition analyzeColor :: "analyzer \<Rightarrow> real \<times> real \<times> real \<Rightarrow> real \<Rightarrow> analyzer \<times> color option" where
  "analyzeColor a rgb timestamp =
     (let match = findClosestColor rgb
      in if aboveThreshold (mdistance match) (threshold a)
         then (a\<lparr>stableColorCount := 0, currentSamples := []\<rparr>, None)
         else (let samples1 = currentSamples a @ [mcolor match];
                   samples = (if length samples1 > samplesRequired a then tl samples1 else samples1);
                   a1 = a\<lparr>currentSamples := samples\<rparr>;
                   first = (case samples of [] \<Rightarrow> Some Undefined | s # ss \<Rightarrow> s);
                   allSamplesMatch = (length samples = samplesRequired a
                                      \<and> list_all (\<lambda>sample. sample = first) samples)
               in if allSamplesMatch
                  then (let detectedColor = first
                        in if detectedColor \<noteq> lastDetectedColor a1
                           then (let timeSinceLastChange = timestamp - lastChangeTime a1
                                 in if timeSinceLastChange \<ge> minChangeTime a1
                                    then (a1\<lparr>lastDetectedColor := detectedColor,
                                             lastChangeTime := timestamp,
                                             stableColorCount := 0\<rparr>, detectedColor)
                                    else (a1, None))
                           else (a1\<lparr>stableColorCount := stableColorCount a1 + 1\<rparr>, None))
                  else (a1\<lparr>stableColorCount := 0\<rparr>, None)))"

definition analyzerReset :: "analyzer \<Rightarrow> analyzer" where
  "analyzerReset a = a\<lparr>lastDetectedColor := None, lastChangeTime := 0, stableColorCount := 0,
                        currentSamples := []\<rparr>"

text \<open>
  A run of the classifier over a sequence of (sample, timestamp) inputs: the list of
  detection events, each with the timestamp of the call that emitted it.
\<close>

fun analyzeAll :: "analyzer \<Rightarrow> ((real \<times> real \<times> real) \<times> real) list \<Rightarrow> (color \<times> real) list" where
  "analyzeAll a [] = []"
| "analyzeAll a ((rgb, t) # rest) =
     (case analyzeColor a rgb t of
        (a', None) \<Rightarrow> analyzeAll a' rest
      | (a', Some c) \<Rightarrow> (c, t) # analyzeAll a' rest)"

section \<open>Colour tracker (framing state machine of the visual channel)\<close>

datatype trackerEvent =
  StatusStarted real
  | StatusTracking color nat
  | StatusDecoded decoded
  | StatusError "codec_error option"
  | StatusMaxLength
  | StatusReset
  | MessageCallback decoded

text \<open>
  The closure state of \<open>createColorTracker\<close>. \<open>timerArmed\<close> stands for a non-null
  \<open>timeoutId\<close>; the firing of the timer is not part of \<open>processColor\<close>.
\<close>

record tracker =
  maxSequenceLength :: nat
  tanalyzer :: analyzer
  tracking :: bool
  colorSequence :: "color list"
  tdecodingState :: "decodingState option"
  lastActivityTime :: real
  timerArmed :: bool

definition trackerReset :: "tracker \<Rightarrow> tracker \<times> trackerEvent list" where
  "trackerReset tr =
     (tr\<lparr>tracking := False, colorSequence := [], tdecodingState := None, timerArmed := False,
         tanalyzer := analyzerReset (tanalyzer tr)\<rparr>, [StatusReset])"

text \<open>A detected colour is truthy when it is a non-empty string.\<close>

definition truthy :: "color option \<Rightarrow> bool" where
  "truthy c = (case c of Some (Color s) \<Rightarrow> s \<noteq> [] | _ \<Rightarrow> False)"

definition processColor :: "tracker \<Rightarrow> real \<times> real \<times> real \<Rightarrow> real \<Rightarrow> tracker \<times> trackerEvent list" where
  "processColor tr0 rgb timestamp =
     (let tr1 = tr0\<lparr>lastActivityTime := timestamp\<rparr>;
          (an, detected) = analyzeColor (tanalyzer tr1) rgb timestamp;
          tr = tr1\<lparr>tanalyzer := an\<rparr>
      in if truthy detected
         then (case detected of
                 Some detectedColor \<Rightarrow>
                   if tracking tr
                   then (let tr2 = tr\<lparr>colorSequence := colorSequence tr @ [detectedColor]\<rparr>
                         in if length (colorSequence tr2) > maxSequenceLength tr2
                            then (let (tr3, evs) = trackerReset tr2 in (tr3, StatusMaxLength # evs))
                            else (let ev1 = StatusTracking detectedColor (length (colorSequence tr2));
                                      ds = processReceivedColor (tdecodingState tr2) detectedColor;
                                      tr3 = tr2\<lparr>tdecodingState := Some ds\<rparr>
                                  in if complete ds
                                     then (let evs2 = (case dmessage ds of
                                                         Some m \<Rightarrow> [MessageCallback m, StatusDecoded m]
                                                       | None \<Rightarrow> [StatusError (derror ds)]);
                                               (tr4, evs3) = trackerReset tr3
                                           in (tr4, ev1 # evs2 @ evs3))
                                     else (tr3, [ev1])))
                   else if detectedColor = START_SIGNAL
                   then (tr\<lparr>tracking := True, colorSequence := [detectedColor],
                            tdecodingState := Some (processReceivedColor None detectedColor),
                            timerArmed := True\<rparr>, [StatusStarted timestamp])
                   else (tr, [])
               | None \<Rightarrow> (tr, []))
         else (tr, []))"

section \<open>Network manager: routing table\<close>

record route =
  nextHop :: string
  hopCount :: int
  timestamp :: int

record peer =
  directlyConnected :: bool

datatype netEvent =
  SendRoute string string int int
  | RouteChanged string string int

text \<open>
  The part of the closure state of \<open>createNetworkManager\<close> that \<open>updateRoute\<close> reads
  and writes: the local peer id, the peers (a Map, in insertion order) and the routing
  table. \<open>now\<close> is the reading of \<open>Date.now()\<close> during the call. The events are the
  ROUTE messages handed to the transport (receiver, destination, advertised hop count,
  ttl) and the route-changed callback.
\<close>

record netState =
  peerId :: string
  peers :: "(string \<times> peer) list"
  routes :: "string \<rightharpoonup> route"

definition broadcastRoute :: "netState \<Rightarrow> string \<Rightarrow> int \<Rightarrow> netEvent list" where
  "broadcastRoute s destination hops =
     map (\<lambda>p. SendRoute (fst p) destination (hops + 1) 2)
       (filter (\<lambda>p. directlyConnected (snd p)) (peers s))"

definition updateRoute :: "netState \<Rightarrow> int \<Rightarrow> string \<Rightarrow> string \<Rightarrow> int \<Rightarrow> netState \<times> netEvent list" where
  "updateRoute s now destination nextHop' hopCount' =
     (if destination = peerId s then (s, [])
      else (let existingRoute = routes s destination;
                shouldUpdate = (case existingRoute of
                                  None \<Rightarrow> True
                                | Some r \<Rightarrow> hopCount' < hopCount r
                                    \<or> (hopCount' = hopCount r \<and> now - timestamp r > 5000))
            in if shouldUpdate
               then (let s' = s\<lparr>routes := (routes s)(destination \<mapsto>
                                   \<lparr> nextHop = nextHop', hopCount = hopCount', timestamp = now \<rparr>)\<rparr>
                     in (s', broadcastRoute s' destination hopCount'
                             @ [RouteChanged destination nextHop' hopCount']))
               else (s, [])))"

section \<open>Message sequencer and assembler\<close>

record message =
  content :: jsstring
  mtype :: string
  encoding :: string

record fragment = message +
  sequenceNumber :: nat
  fragmentCount :: nat
  fragmentNumber :: nat
  totalLength :: nat
  isFragment :: bool

record sequencer =
  maxSequence :: nat
  maxPayloadSize :: nat
  currentSequence :: nat

text \<open>\<open>createMessageSequencer(options)\<close>: an absent or zero option takes the default.\<close>

definition createMessageSequencer :: "nat option \<Rightarrow> nat option \<Rightarrow> sequencer" where
  "createMessageSequencer omaxSequence omaxPayloadSize =
     \<lparr> maxSequence = (case omaxSequence of None \<Rightarrow> 255 | Some n \<Rightarrow> if n = 0 then 255 else n),
       maxPayloadSize = (case omaxPayloadSize of None \<Rightarrow> 1024 | Some n \<Rightarrow> if n = 0 then 1024 else n),
       currentSequence = 0 \<rparr>"

definition incrementSequence :: "sequencer \<Rightarrow> sequencer" where
  "incrementSequence s = s\<lparr>currentSequence := (currentSequence s + 1) mod (maxSequence s + 1)\<rparr>"

text \<open>
  \<open>fragmentMessage(message)\<close>: the fragments and the sequencer after the call. With a
  payload size of 0 and a non-empty content the chunking loop never ends: the result is
  \<open>None\<close>.
\<close>

definition fragmentMessage :: "sequencer \<Rightarrow> message \<Rightarrow> (fragment list \<times> sequencer) option" where
  "fragmentMessage s m =
     (if length (content m) \<le> maxPayloadSize s
      then Some ([\<lparr> content = content m, mtype = mtype m, encoding = encoding m,
                    sequenceNumber = currentSequence s, fragmentCount = 1, fragmentNumber = 0,
                    totalLength = length (content m), isFragment = False \<rparr>],
                 incrementSequence s)
      else if maxPayloadSize s = 0 then None
      else (let chunks = chunksOf (maxPayloadSize s) (content m)
            in Some (map (\<lambda>(chunk, index).
                        \<lparr> content = chunk, mtype = mtype m, encoding = encoding m,
                          sequenceNumber = currentSequence s, fragmentCount = length chunks,
                          fragmentNumber = index, totalLength = length (content m),
                          isFragment = True \<rparr>)
                      (zip chunks [0..<length chunks]),
                     incrementSequence s)))"

text \<open>
  The assembler: \<open>buffers\<close> is the Map \<open>fragments\<close> from sequence numbers to fragment
  data, \<open>timeouts\<close> the sequence numbers with a pending timer. A slot \<open>None\<close> is a hole
  of the array.
\<close>

record fragmentData =
  slots :: "fragment option list"
  received :: nat
  fdType :: string
  fdEncoding :: string
  fdTotalLength :: nat

record assembler =
  buffers :: "nat \<rightharpoonup> fragmentData"
  timeouts :: "nat set"

record assembled = message +
  asmSequenceNumber :: nat
  asmIsFragment :: bool
  wasReassembled :: bool

datatype addResult = Null | Passed fragment | Assembled assembled

text \<open>Reading and writing an array element; a write past the end extends the array.\<close>

definition slotGet :: "'a option list \<Rightarrow> nat \<Rightarrow> 'a option" where
  "slotGet xs i = (if i < length xs then xs ! i else None)"

definition slotSet :: "'a option list \<Rightarrow> nat \<Rightarrow> 'a \<Rightarrow> 'a option list" where
  "slotSet xs i v =
     (if i < length xs then xs[i := Some v] else xs @ replicate (i - length xs) None @ [Some v])"

definition cleanupSequence :: "assembler \<Rightarrow> nat \<Rightarrow> assembler" where
  "cleanupSequence a sq = a\<lparr>buffers := (buffers a)(sq := None), timeouts := timeouts a - {sq}\<rparr>"

definition assembleMessage :: "assembler \<Rightarrow> nat \<Rightarrow> fragmentData \<Rightarrow> addResult \<times> assembler" where
  "assembleMessage a sq fd =
     (let content' = concat (map (\<lambda>slot. case slot of None \<Rightarrow> [] | Some f \<Rightarrow> content f) (slots fd))
      in (Assembled \<lparr> content = content', mtype = fdType fd, encoding = fdEncoding fd,
                      asmSequenceNumber = sq, asmIsFragment = False, wasReassembled = True \<rparr>,
          cleanupSequence a sq))"

definition addFragment :: "assembler \<Rightarrow> fragment \<Rightarrow> addResult \<times> assembler" where
  "addFragment a f =
     (if \<not> isFragment f then (Passed f, a)
      else (let sq = sequenceNumber f;
                a1 = (case buffers a sq of
                        Some fd \<Rightarrow> a
                      | None \<Rightarrow> a\<lparr>buffers := (buffers a)(sq \<mapsto>
                                     \<lparr> slots = replicate (fragmentCount f) None, received = 0,
                                       fdType = mtype f, fdEncoding = encoding f,
                                       fdTotalLength = totalLength f \<rparr>),
                                   timeouts := insert sq (timeouts a)\<rparr>)
            in case buffers a1 sq of
                 None \<Rightarrow> (Null, a1)
               | Some fragmentData \<Rightarrow>
                   if slotGet (slots fragmentData) (fragmentNumber f) \<noteq> None then (Null, a1)
                   else (let fd' = fragmentData\<lparr>slots := slotSet (slots fragmentData) (fragmentNumber f) f,
                                                received := received fragmentData + 1\<rparr>;
                             a2 = a1\<lparr>buffers := (buffers a1)(sq \<mapsto> fd')\<rparr>
                         in if received fd' = fragmentCount f then assembleMessage a2 sq fd'
                            else (Null, a2))))"

text \<open>
  Feeding a list of fragments to the assembler, one \<open>addFragment\<close> call each: the results
  in call order and the final assembler.
\<close>

fun addFragments :: "assembler \<Rightarrow> fragment list \<Rightarrow> addResult list \<times> assembler" where
  "addFragments a [] = ([], a)"
| "addFragments a (f # fs) =
     (case addFragment a f of (r, a') \<Rightarrow>
        (case addFragments a' fs of (rs, a'') \<Rightarrow> (r # rs, a'')))"

text \<open>The content of the message that a result delivers; \<open>null\<close> delivers none.\<close>

definition deliveredContent :: "addResult \<Rightarrow> jsstring option" where
  "deliveredContent r =
     (case r of Null \<Rightarrow> None | Passed f \<Rightarrow> Some (content f) | Assembled m \<Rightarrow> Some (content m))"

section \<open>Audio decoder (framing state machine of the audio channel)\<close>

text \<open>
  The constants of \<open>AUDIO_CONFIG\<close> and \<open>DECODE_CONFIG\<close> that the decoder reads.
  Frequencies and times are numbers, modelled as reals.
\<close>

definition startMarkerFreq :: real where "startMarkerFreq = 2000"
definition endMarkerFreq :: real where "endMarkerFreq = 2200"
definition syncFreq :: real where "syncFreq = 1800"
definition baseFrequency :: real where "baseFrequency = 1000"
definition freqShift :: real where "freqShift = 200"
definition symbolDuration :: real where "symbolDuration = 5 / 100"
definition minSignalStrength :: real where "minSignalStrength = 1 / 10"
definition frequencyTolerance :: real where "frequencyTolerance = 30"
definition symbolCount :: int where "symbolCount = 8"

text \<open>
  \<open>findDominantFrequency(frequencyData, sampleRate)\<close>: the loop keeps
  (\<open>maxValue\<close>, \<open>maxIndex\<close>); the result \<open>None\<close> is \<open>null\<close>.
\<close>

definition dominantStep :: "byte list \<Rightarrow> nat \<times> int \<Rightarrow> nat \<Rightarrow> nat \<times> int" where
  "dominantStep frequencyData acc i =
     (if unat (frequencyData ! i) > fst acc then (unat (frequencyData ! i), int i) else acc)"

definition findDominantFrequency :: "byte list \<Rightarrow> real \<Rightarrow> real option" where
  "findDominantFrequency frequencyData sampleRate =
     (let bufferLength = length frequencyData;
          (maxValue, maxIndex) = foldl (dominantStep frequencyData) (0, - 1) [0..<bufferLength]
      in if real maxValue > minSignalStrength * 255
         then Some (real_of_int maxIndex * sampleRate / (real bufferLength * 2))
         else None)"

datatype audio_error = SequenceTooShort | TooShortForMetadata | AudioChecksumFailed

record audioMessage =
  atext :: jsstring
  asymbolCount :: nat
  achecksumValid :: bool

text \<open>
  \<open>decodeSymbols(symbols)\<close>: three metadata symbols (\<open>ceil(8 / log2(8))\<close>), the data
  symbols and the trailing checksum symbol.
\<close>

definition decodeSymbols :: "int list \<Rightarrow> audio_error + audioMessage" where
  "decodeSymbols symbols =
     (if length symbols < 3 then Inl SequenceTooShort
      else (let metadataLength = 3 in
      if length symbols \<le> metadataLength then Inl TooShortForMetadata
      else (let dataSymbols = slice symbols metadataLength (length symbols - 1);
                checksumSymbol = symbols ! (length symbols - 1);
                calculatedChecksum = jsRem (foldl (+) 0 dataSymbols) symbolCount
            in if calculatedChecksum \<noteq> checksumSymbol then Inl AudioChecksumFailed
               else (let binary = concat (map (\<lambda>symbol. padStart 3 CHR ''0'' (toString2 symbol))
                                            dataSymbols);
                         text = map (\<lambda>byte. fromCharCode (parseInt2 (padEnd 8 CHR ''0'' byte)))
                                  (chunksOf 8 binary)
                     in Inr \<lparr> atext = text, asymbolCount = length symbols,
                              achecksumValid = True \<rparr>))))"

datatype audioEvent =
  AudioStarted real
  | AudioMessage audioMessage
  | AudioDecoded audioMessage
  | AudioError audio_error
  | AudioSymbol int real nat
  | AudioTimeout real

text \<open>
  The decoding state of \<open>createAudioDecoder\<close> together with the \<open>isListening\<close> flag.
  The fields \<open>detectedFrequencies\<close> and \<open>messageBuffer\<close> of the source are only ever
  reset to empty and are left out.
\<close>

record audioState =
  isListening :: bool
  isDecoding :: bool
  symbolBuffer :: "int list"
  lastSymbolTime :: real
  currentMessage :: "audioMessage option"

text \<open>\<open>Math.round\<close>: the nearest integer, halves rounded up.\<close>

definition mathRound :: "real \<Rightarrow> int" where
  "mathRound x = \<lfloor>x + 1 / 2\<rfloor>"

text \<open>
  One run of \<open>processAudioFrame\<close> on the frequency data of the analyser, the sample
  rate and the reading \<open>now\<close> of \<open>audioContext.currentTime\<close>: the new state and the
  status updates, in order, with \<open>AudioMessage\<close> for the call of a registered message
  callback. A dominant frequency of 0 is falsy, like \<open>null\<close>; a decoder that is not
  listening returns at once.
\<close>

definition processAudioFrame :: "audioState \<Rightarrow> byte list \<Rightarrow> real \<Rightarrow> real \<Rightarrow> audioState \<times> audioEvent list" where
  "processAudioFrame s0 dataArray sampleRate now =
     (if \<not> isListening s0 then (s0, [])
      else (let dominantFrequency = findDominantFrequency dataArray sampleRate;
                (s1, evs1) =
                  (case dominantFrequency of
                     None \<Rightarrow> (s0, [])
                   | Some f \<Rightarrow>
                       if f = 0 then (s0, [])
                       else if \<not> isDecoding s0 \<and> \<bar>f - startMarkerFreq\<bar> < frequencyTolerance
                       then (s0\<lparr>isDecoding := True, lastSymbolTime := now, symbolBuffer := []\<rparr>,
                             [AudioStarted now])
                       else if isDecoding s0 \<and> \<bar>f - endMarkerFreq\<bar> < frequencyTolerance
                       then (let (sd, evd) =
                                   (if length (symbolBuffer s0) > 0
                                    then (case decodeSymbols (symbolBuffer s0) of
                                            Inr decodedMessage \<Rightarrow>
                                              (s0\<lparr>currentMessage := Some decodedMessage\<rparr>,
                                               [AudioMessage decodedMessage, AudioDecoded decodedMessage])
                                          | Inl err \<Rightarrow> (s0, [AudioError err]))
                                    else (s0, []))
                             in (sd\<lparr>isDecoding := False, symbolBuffer := []\<rparr>, evd))
                       else if isDecoding s0 \<and> \<bar>f - syncFreq\<bar> < frequencyTolerance
                       then (s0\<lparr>lastSymbolTime := now\<rparr>, [])
                       else if isDecoding s0
                       then (let symbolIndex = mathRound ((f - baseFrequency) / freqShift)
                             in if symbolIndex \<ge> 0 \<and> symbolIndex < symbolCount
                                then (let timeSinceLastSymbol = now - lastSymbolTime s0
                                      in if timeSinceLastSymbol \<ge> symbolDuration - 1 / 100
                                         then (s0\<lparr>symbolBuffer := symbolBuffer s0 @ [symbolIndex],
                                                  lastSymbolTime := now\<rparr>,
                                               [AudioSymbol symbolIndex f
                                                  (Suc (length (symbolBuffer s0)))])
                                         else (s0, []))
                                else (s0, []))
                       else (s0, []))
            in if isDecoding s1 \<and> now - lastSymbolTime s1 > symbolDuration * 10
               then (s1\<lparr>isDecoding := False, symbolBuffer := []\<rparr>,
                     evs1 @ [AudioTimeout (now - lastSymbolTime s1)])
               else (s1, evs1)))"

text \<open>
  An audio decoder in the middle of a reception with two collected symbols, and a
  frequency frame whose strongest bin (index 1 of 4, at 14400 Hz sample rate) lies at the
  sync frequency 1800 Hz.
\<close>

definition collectingAudio :: audioState where
  "collectingAudio = \<lparr> isListening = True, isDecoding = True, symbolBuffer = [0, 3],
                        lastSymbolTime = 1, currentMessage = None \<rparr>"

definition syncFrame :: "byte list" where
  "syncFrame = [0, 200, 0, 0]"

section \<open>Notions used in the statements and proofs\<close>

text \<open>
  Consecutive detection events differ in their symbol and lie at least \<open>m\<close> apart.
\<close>

fun spaced :: "real \<Rightarrow> (color \<times> real) list \<Rightarrow> bool" where
  "spaced m (e1 # e2 # es) = (fst e1 \<noteq> fst e2 \<and> m \<le> snd e2 - snd e1 \<and> spaced m (e2 # es))"
| "spaced m es = True"

text \<open>
  A tracker in the middle of a reception: START has been detected and collected, one
  consistent sample confirms a colour.
\<close>

definition collectingTracker :: tracker where
  "collectingTracker =
     \<lparr> maxSequenceLength = 1000,
       tanalyzer = \<lparr> threshold = 50, minChangeTime = 50, samplesRequired = 1,
                     lastDetectedColor = Some START_SIGNAL, lastChangeTime = 0,
                     stableColorCount = 0, currentSamples = [Some START_SIGNAL] \<rparr>,
       tracking = True, colorSequence = [START_SIGNAL],
       tdecodingState = Some \<lparr> collecting = True, dcolors = [START_SIGNAL], complete = False,
                               dmessage = None, derror = None \<rparr>,
       lastActivityTime = 0, timerArmed = True \<rparr>"

text \<open>A node A that knows a 3-hop route to B through its neighbour C, stored at time 1000.\<close>

definition routeBviaC :: route where
  "routeBviaC = \<lparr> nextHop = ''C'', hopCount = 3, timestamp = 1000 \<rparr>"

definition nodeA :: netState where
  "nodeA = \<lparr> peerId = ''A'', peers = [(''C'', \<lparr> directlyConnected = True \<rparr>)],
             routes = [''B'' \<mapsto> routeBviaC] \<rparr>"

text \<open>
  The fragments of one message as a function of the fragment number, and the state of
  the assembler after the fragments with numbers in \<open>R\<close> have been added: either nothing
  is buffered yet, or the buffer holds exactly these fragments in their slots.
\<close>

definition fragOK :: "(nat \<Rightarrow> fragment) \<Rightarrow> nat \<Rightarrow> nat \<Rightarrow> bool" where
  "fragOK G n sq = (\<forall>i<n. fragmentNumber (G i) = i \<and> fragmentCount (G i) = n
        \<and> sequenceNumber (G i) = sq \<and> isFragment (G i))"

definition asmInv :: "(nat \<Rightarrow> fragment) \<Rightarrow> nat \<Rightarrow> nat \<Rightarrow> assembler \<Rightarrow> nat set \<Rightarrow> bool" where
  "asmInv G n sq a R =
     ((R = {} \<and> buffers a sq = None) \<or>
      (\<exists>fd. buffers a sq = Some fd \<and> length (slots fd) = n
            \<and> (\<forall>i<n. slots fd ! i = (if i \<in> R then Some (G i) else None))
            \<and> received fd = card R))"

text \<open>The message "HelloWorld", its fragments for a payload size of 4, a fresh assembler.\<close>

definition helloWorld :: message where
  "helloWorld = \<lparr> content = [72, 101, 108, 108, 111, 87, 111, 114, 108, 100],
                   mtype = ''text'', encoding = ''text'' \<rparr>"

definition helloFragment :: "nat \<Rightarrow> jsstring \<Rightarrow> fragment" where
  "helloFragment i chunk =
     \<lparr> content = chunk, mtype = ''text'', encoding = ''text'', sequenceNumber = 0,
       fragmentCount = 3, fragmentNumber = i, totalLength = 10, isFragment = True \<rparr>"

definition emptyAssembler :: assembler where
  "emptyAssembler = \<lparr> buffers = Map.empty, timeouts = {} \<rparr>"

text \<open>The 8 binary digits that \<open>textToBinary\<close> writes for one code unit.\<close>

definition bits8 :: "nat \<Rightarrow> string" where
  "bits8 c = padStart 8 CHR ''0'' (toString2 (int c))"

section \<open>Evaluation rules for concrete inputs\<close>

lemma chunksOf_Nil: "chunksOf k [] = []"
  by (simp add: chunksOf.simps)

lemma chunksOf_Cons:
  "0 < k \<Longrightarrow> chunksOf k (x # xs) = take k (x # xs) # chunksOf k (drop k (x # xs))"
  by (subst chunksOf.simps) simp

lemma binDigits_0: "binDigits 0 = ''0''"
  by (simp add: binDigits.simps)

lemma binDigits_1: "binDigits 1 = ''1''"
  by (subst binDigits.simps) simp

lemma binDigits_Suc0: "binDigits (Suc 0) = ''1''"
  by (subst binDigits.simps) simp

lemma binDigits_double: "1 \<le> n \<Longrightarrow> binDigits (2 * n) = binDigits n @ ''0''"
  by (subst binDigits.simps) simp

lemma binDigits_double_inc: "1 \<le> n \<Longrightarrow> binDigits (2 * n + 1) = binDigits n @ ''1''"
  by (subst binDigits.simps) simp

lemma binDigits_Bit0: "binDigits (numeral (Num.Bit0 n)) = binDigits (numeral n) @ ''0''"
  using binDigits_double [of "numeral n"] by (simp only: numeral_Bit0_eq_double [of n]) simp

lemma binDigits_Bit1: "binDigits (numeral (Num.Bit1 n)) = binDigits (numeral n) @ ''1''"
  using binDigits_double_inc [of "numeral n"]
  by (simp only: numeral_Bit1_eq_inc_double [of n]) simp

lemma replicate_num: "replicate (numeral k) x = x # replicate (pred_numeral k) x"
  by (simp add: numeral_eq_Suc)

lemmas ev = chunksOf_Nil chunksOf_Cons binDigits_0 binDigits_1 binDigits_Suc0
  binDigits_Bit0 binDigits_Bit1 replicate_num

lemmas parse_defs = parseInt2_def isBinDigit_def binValue_def padEnd_def COLOR_BITS_def Let_def

lemmas sig_defs = START_SIGNAL_def END_SIGNAL_def SYNC_SIGNAL_def

lemma colorToIndex_eval:
  "colorToIndex (Color ''#FF0000'') = 0" "colorToIndex (Color ''#00FF00'') = 1"
  "colorToIndex (Color ''#0000FF'') = 2" "colorToIndex (Color ''#FFFF00'') = 3"
  "colorToIndex (Color ''#FF00FF'') = 4" "colorToIndex (Color ''#00FFFF'') = 5"
  "colorToIndex (Color ''#FFFFFF'') = 6" "colorToIndex (Color ''#000000'') = 7"
  "colorToIndex Undefined = - 1"
  by (simp_all add: colorToIndex_def COLORS_def)

section \<open>Properties of the error correction module\<close>







text \<open>
  C4. For every even-length byte array, \<open>decode\<close> in 'hamming' mode returns a result
  with \<open>valid\<close> true and \<open>corrected\<close> 0, whatever number of parity mismatches the loop
  counted into \<open>errors\<close>.
\<close>

theorem hamming_decode_always_valid:
  assumes "mode s = ''hamming''" and "even (length encoded)"
  shows "\<exists>r s'. ec_decode s encoded = Inr (r, s') \<and> valid r \<and> corrected r = 0
           \<and> errors r = snd (hammingLoop (strength s) encoded ([], 0))"
  using assms by (auto simp: ec_decode_def hammingDecode_def split: prod.splits)

theorem hamming_decode_always_valid_witness:
  "mode (createErrorCorrection None None None) = ''hamming'' \<and> even (length [1, 0, 2, 6 :: byte])
   \<and> (\<exists>r s'. ec_decode (createErrorCorrection None None None) [1, 0, 2, 6] = Inr (r, s')
         \<and> valid r \<and> corrected r = 0 \<and> errors r = 1)"
  using hamming_decode_always_valid [of "createErrorCorrection None None None" "[1, 0, 2, 6]"]
  by (simp add: createErrorCorrection_def calculateParity_def parityRound_def)




lemma reedSolomonEncode_1234:
  "ec_encode (createErrorCorrection (Some ''reed-solomon'') (Some 1) (Some False)) [1, 2, 3, 4]
     = Inr [1, 2, 3, 4, 4]"
  by (simp add: createErrorCorrection_def ec_encode_def reedSolomonEncode_def
      rsChecksumLengthEnc_def truncRat_def rsChecksum_def loopRange_def checksumStep_def
      byteAt_def typedSet_def Let_def upt_rec)

lemma reedSolomonDecode_12344:
  "ec_decode (createErrorCorrection (Some ''reed-solomon'') (Some 1) (Some False)) [1, 2, 3, 4, 4]
     = Inr (\<lparr>rdata = [1, 2, 3, 4], errors = 1, corrected = 0, valid = False\<rparr>,
            updateErrorStats True (createErrorCorrection (Some ''reed-solomon'') (Some 1) (Some False)))"
  by (simp add: createErrorCorrection_def ec_decode_def reedSolomonDecode_def
      rsChecksumLengthDec_def truncRat_def rsChecksum_def loopRange_def checksumStep_def
      byteAt_def byteAtRat_def sliceTo_def Let_def upt_rec)

text \<open>
  C10. In 'reed-solomon' mode with strength 1, the 4-byte array \<open>[1, 2, 3, 4]\<close> is
  encoded with one checksum byte (the low byte of the 32-bit checksum \<open>0x01020304\<close>);
  \<open>decode\<close> of that encoding compares the full 32-bit checksum with the one stored byte
  and reports \<open>valid = false\<close>, \<open>errors = 1\<close>, although nothing was corrupted.
\<close>

theorem reed_solomon_roundtrip_short_data:
  "ec_encode (createErrorCorrection (Some ''reed-solomon'') (Some 1) (Some False)) [1, 2, 3, 4]
     = Inr [1, 2, 3, 4, 4]
   \<and> (\<exists>s'. ec_decode (createErrorCorrection (Some ''reed-solomon'') (Some 1) (Some False))
               [1, 2, 3, 4, 4]
         = Inr (\<lparr>rdata = [1, 2, 3, 4], errors = 1, corrected = 0, valid = False\<rparr>, s'))"
  by (simp add: reedSolomonEncode_1234 reedSolomonDecode_12344)

section \<open>Properties of the colour codec\<close>

lemma padStart_72: "padStart 8 CHR ''0'' (toString2 72) = ''01001000''"
  by (simp add: padStart_def toString2_def ev)

lemma padStart_105: "padStart 8 CHR ''0'' (toString2 105) = ''01101001''"
  by (simp add: padStart_def toString2_def ev)

lemma padStart_2: "padStart 8 CHR ''0'' (toString2 2) = ''00000010''"
  by (simp add: padStart_def toString2_def ev)

lemma textToBinary_Hi: "textToBinary [72, 105] = ''0100100001101001''"
  by (simp add: textToBinary_def charCodeAt0_def padStart_72 padStart_105)

lemma binaryToColorIndexes_Hi:
  "binaryToColorIndexes ''0100100001101001'' = [Num 2, Num 2, Num 0, Num 6, Num 4, Num 4]"
  by (simp add: binaryToColorIndexes_def parse_defs ev)

lemma binaryToColorIndexes_len2: "binaryToColorIndexes ''00000010'' = [Num 0, Num 0, Num 4]"
  by (simp add: binaryToColorIndexes_def parse_defs ev)

lemma calculateChecksum_Hi:
  "calculateChecksum [Num 2, Num 2, Num 0, Num 6, Num 4, Num 4] = Num 2"
  by (simp add: calculateChecksum_def jsAdd_def jsRem8_def jsRem_def)

lemma encodeText_Hi:
  "encodeText [72, 105] =
     [START_SIGNAL, SYNC_SIGNAL, Color ''#0000FF'', Color ''#0000FF'', Color ''#FF0000'',
      Color ''#FFFFFF'', Color ''#FF00FF'', Color ''#FF00FF'', Color ''#0000FF'',
      SYNC_SIGNAL, END_SIGNAL]"
  by (simp add: encodeText_def textToBinary_Hi binaryToColorIndexes_Hi calculateChecksum_Hi
      colorAt_def COLORS_def)

lemma createMetadataHeader_Hi:
  "createMetadataHeader [72, 105] = [Color ''#FF0000'', Color ''#FF0000'', Color ''#FF00FF'']"
  by (simp add: createMetadataHeader_def padStart_2 binaryToColorIndexes_len2 colorAt_def
      COLORS_def)

lemma encode_Hi:
  "encode [72, 105] =
     Inr \<lparr> colors = [START_SIGNAL, Color ''#FF0000'', Color ''#FF0000'', Color ''#FF00FF'',
                     SYNC_SIGNAL, SYNC_SIGNAL, Color ''#0000FF'', Color ''#0000FF'',
                     Color ''#FF0000'', Color ''#FFFFFF'', Color ''#FF00FF'', Color ''#FF00FF'',
                     Color ''#0000FF'', SYNC_SIGNAL, END_SIGNAL],
           originalText = [72, 105], textLength = 2, binaryLength = 16, colorCount = 11 \<rparr>"
  by (simp add: encode_def encodeText_Hi createMetadataHeader_Hi textToBinary_Hi)

lemma decode_encoded_Hi:
  "decode (Some [START_SIGNAL, Color ''#FF0000'', Color ''#FF0000'', Color ''#FF00FF'',
                 SYNC_SIGNAL, SYNC_SIGNAL, Color ''#0000FF'', Color ''#0000FF'',
                 Color ''#FF0000'', Color ''#FFFFFF'', Color ''#FF00FF'', Color ''#FF00FF'',
                 Color ''#0000FF'', SYNC_SIGNAL, END_SIGNAL]) = Inl ChecksumFailed"
  by (simp add: decode_def sig_defs indexOf_def lastIndexOf_def slice_def colorToIndex_eval
      verifyChecksum_def jsRem_def Let_def)

text \<open>
  The frame that \<open>encode\<close> builds for any non-empty text: after the metadata header the
  SYNC signal stands twice, once written by \<open>encode\<close> and once kept from the sequence of
  \<open>encodeText\<close>, of which only the START signal is dropped.
\<close>

lemma encode_frame:
  assumes "text \<noteq> []"
  shows "\<exists>e. encode text = Inr e \<and>
           colors e = [START_SIGNAL] @ createMetadataHeader text @ [SYNC_SIGNAL, SYNC_SIGNAL]
                      @ map colorAt (binaryToColorIndexes (textToBinary text))
                      @ [colorAt (calculateChecksum (binaryToColorIndexes (textToBinary text))),
                         SYNC_SIGNAL, END_SIGNAL]"
  using assms by (simp add: encode_def encodeText_def Let_def)

text \<open>
  The claim C1 as stated fails: the empty text (length 0) is rejected by \<open>encode\<close>, and
  for the text "Hi" (code units 72, 105) \<open>decode\<close> of the encoded colour sequence throws
  the checksum error instead of returning the text.
\<close>

theorem roundtrip_fails_counterexample:
  "encode [] = Inl EmptyMessage
   \<and> (case encode [72, 105] of Inl err \<Rightarrow> Inl err | Inr e \<Rightarrow> decode (Some (colors e)))
        = Inl ChecksumFailed"
  by (simp add: encode_Hi decode_encoded_Hi) (simp add: encode_def)

text \<open>
  C2. For the text "Hi", \<open>encode\<close> produces START, the 3 metadata symbols (Red, Red,
  Magenta), then SYNC twice, the data symbols (Blue, Blue, Red, White, Magenta, Magenta),
  the checksum symbol (Blue), SYNC and END: 15 symbols, one more SYNC than the frame
  START, metadata, SYNC, data, checksum, SYNC, END.
\<close>

theorem encode_Hi_frame_has_two_syncs:
  "map_sum id colors (encode [72, 105]) =
     Inr ([START_SIGNAL] @ [Color ''#FF0000'', Color ''#FF0000'', Color ''#FF00FF'']
          @ [SYNC_SIGNAL, SYNC_SIGNAL]
          @ [Color ''#0000FF'', Color ''#0000FF'', Color ''#FF0000'', Color ''#FFFFFF'',
             Color ''#FF00FF'', Color ''#FF00FF'']
          @ [Color ''#0000FF''] @ [SYNC_SIGNAL] @ [END_SIGNAL])"
  by (simp add: encode_Hi)

text \<open>
  C3. The sequence Blue (END), Magenta (START), White (SYNC), Red, White (SYNC) has five
  symbols, a START, an END, a SYNC after START and no SYNC before END (END is the first
  symbol); \<open>decode\<close> does not throw on it but returns the empty text.
\<close>

theorem decode_end_first_returns:
  "decode (Some [END_SIGNAL, START_SIGNAL, SYNC_SIGNAL, Color ''#FF0000'', SYNC_SIGNAL]) =
     Inr \<lparr> dtext = [], checksumValid = True, expectedLength = None, actualLength = 0,
           dcolorCount = 5, lengthWarning = False \<rparr>"
  by (simp add: decode_def sig_defs indexOf_def lastIndexOf_def slice_def colorToIndex_eval
      verifyChecksum_def jsRem_def Let_def extractMessageLength_def colorIndexesToBinary_def
      binaryToText_def ev)

section \<open>Properties of the routing table\<close>

text \<open>
  C8. When a route to the destination exists, \<open>updateRoute\<close> replaces it only if the new
  hop count is strictly smaller than the stored one, or equal to it with the stored route
  older than 5000 ms; in every other case the call changes nothing (the whole state is
  unchanged and nothing is sent). When the condition holds and the destination is not
  the local peer, the entry becomes the new route.
\<close>

theorem updateRoute_replaces_only_when_better:
  assumes "routes s destination = Some r"
  shows "(routes (fst (updateRoute s now destination nh hc)) destination \<noteq> Some r
            \<longrightarrow> hc < hopCount r \<or> (hc = hopCount r \<and> now - timestamp r > 5000))
       \<and> (\<not> (hc < hopCount r \<or> (hc = hopCount r \<and> now - timestamp r > 5000))
            \<longrightarrow> updateRoute s now destination nh hc = (s, []))
       \<and> (destination \<noteq> peerId s
            \<and> (hc < hopCount r \<or> (hc = hopCount r \<and> now - timestamp r > 5000))
            \<longrightarrow> routes (fst (updateRoute s now destination nh hc)) destination
                  = Some \<lparr> nextHop = nh, hopCount = hc, timestamp = now \<rparr>)"
  using assms by (auto simp: updateRoute_def Let_def)

theorem updateRoute_replaces_only_when_better_witness:
  "routes nodeA ''B'' = Some routeBviaC
   \<and> updateRoute nodeA 6000 ''B'' ''D'' 3 = (nodeA, [])
   \<and> updateRoute nodeA 7000 ''B'' ''D'' 4 = (nodeA, [])
   \<and> routes (fst (updateRoute nodeA 6001 ''B'' ''D'' 3)) ''B''
        = Some \<lparr> nextHop = ''D'', hopCount = 3, timestamp = 6001 \<rparr>
   \<and> routes (fst (updateRoute nodeA 1001 ''B'' ''D'' 2)) ''B''
        = Some \<lparr> nextHop = ''D'', hopCount = 2, timestamp = 1001 \<rparr>"
  using updateRoute_replaces_only_when_better [of nodeA "''B''" routeBviaC 6000 "''D''" 3]
    updateRoute_replaces_only_when_better [of nodeA "''B''" routeBviaC 7000 "''D''" 4]
    updateRoute_replaces_only_when_better [of nodeA "''B''" routeBviaC 6001 "''D''" 3]
    updateRoute_replaces_only_when_better [of nodeA "''B''" routeBviaC 1001 "''D''" 2]
  by (simp add: nodeA_def routeBviaC_def)

section \<open>Properties of the signal classifier\<close>

lemma closestStep_mcolor: "mcolor acc \<noteq> None \<Longrightarrow> mcolor (closestStep rgb acc ci) \<noteq> None"
  by (simp add: closestStep_def Let_def)

lemma foldl_closestStep_mcolor:
  "mcolor acc \<noteq> None \<Longrightarrow> mcolor (foldl (closestStep rgb) acc ps) \<noteq> None"
proof (induction ps arbitrary: acc)
  case Nil
  then show ?case by simp
next
  case (Cons p ps)
  from Cons.prems have "mcolor (closestStep rgb acc p) \<noteq> None"
    by (rule closestStep_mcolor)
  from Cons.IH [OF this] show ?case by simp
qed

text \<open>The palette is not empty, so a closest colour always exists.\<close>

lemma findClosestColor_mcolor: "mcolor (findClosestColor rgb) \<noteq> None"
proof -
  have "zip COLORS [0..<length COLORS]
          = (Color ''#FF0000'', 0) # tl (zip COLORS [0..<length COLORS])"
    by (simp add: COLORS_def upt_rec)
  then obtain rest where z: "zip COLORS [0..<length COLORS] = (Color ''#FF0000'', 0) # rest"
    by blast
  show ?thesis
    unfolding findClosestColor_def z
    by (simp add: foldl_closestStep_mcolor closestStep_def Let_def)
qed

text \<open>
  One call of \<open>analyzeColor\<close>: without an event the last detected colour and the time of
  the last change stay; an event for colour \<open>c\<close> at time \<open>t\<close> requires that \<open>c\<close> is not the
  last detected colour and that \<open>minChangeTime\<close> has passed since the last change, and
  it stores \<open>c\<close> and \<open>t\<close>.
\<close>

lemma analyzeColor_step:
  assumes "None \<notin> set (currentSamples a)" and "analyzeColor a rgb t = (a', r)"
  shows "None \<notin> set (currentSamples a') \<and> minChangeTime a' = minChangeTime a \<and>
         (case r of
            None \<Rightarrow> lastDetectedColor a' = lastDetectedColor a \<and> lastChangeTime a' = lastChangeTime a
          | Some c \<Rightarrow> lastDetectedColor a' = Some c \<and> lastChangeTime a' = t
                      \<and> lastDetectedColor a \<noteq> Some c \<and> minChangeTime a \<le> t - lastChangeTime a)"
proof -
  define samples1 where "samples1 = currentSamples a @ [mcolor (findClosestColor rgb)]"
  define samples where
    "samples = (if length samples1 > samplesRequired a then tl samples1 else samples1)"
  have s1: "None \<notin> set samples1"
    using assms(1) findClosestColor_mcolor [of rgb] by (auto simp: samples1_def)
  have s: "None \<notin> set samples"
    using s1 by (auto simp: samples_def dest: list.set_sel(2) [rotated])
  define first where "first = (case samples of [] \<Rightarrow> Some Undefined | s # ss \<Rightarrow> s)"
  have f: "first \<noteq> None"
  proof (cases samples)
    case Nil
    then show ?thesis by (simp add: first_def)
  next
    case (Cons x xs)
    with s have "x \<noteq> None" by (cases x) auto
    with Cons show ?thesis by (simp add: first_def)
  qed
  show ?thesis
    using assms(2) s f
    unfolding analyzeColor_def Let_def samples1_def [symmetric] samples_def [symmetric]
      first_def [symmetric]
    by (auto split: if_splits option.splits)
qed

lemma analyzeAll_spaced:
  assumes "None \<notin> set (currentSamples a)"
  shows "(case analyzeAll a inputs of
            [] \<Rightarrow> True
          | e # es \<Rightarrow> lastDetectedColor a \<noteq> Some (fst e)
                      \<and> minChangeTime a \<le> snd e - lastChangeTime a)
         \<and> spaced (minChangeTime a) (analyzeAll a inputs)"
  using assms
proof (induction inputs arbitrary: a)
  case Nil
  then show ?case by simp
next
  case (Cons inp rest)
  obtain rgb t where inp: "inp = (rgb, t)" by (cases inp)
  obtain a' r where ac: "analyzeColor a rgb t = (a', r)" by (cases "analyzeColor a rgb t")
  note st = analyzeColor_step [OF Cons.prems ac]
  then have inv: "None \<notin> set (currentSamples a')" by simp
  note ih = Cons.IH [OF inv]
  show ?case
  proof (cases r)
    case None
    with st ih inp ac show ?thesis by (cases "analyzeAll a' rest") simp_all
  next
    case (Some c)
    with st ih inp ac show ?thesis
      by (cases "analyzeAll a' rest") auto
  qed
qed

lemma spaced_nth:
  "spaced m es \<Longrightarrow> Suc i < length es \<Longrightarrow>
     fst (es ! i) \<noteq> fst (es ! Suc i) \<and> m \<le> snd (es ! Suc i) - snd (es ! i)"
proof (induction m es arbitrary: i rule: spaced.induct)
  case (1 m e1 e2 es)
  then show ?case by (cases i) auto
qed simp_all

lemma hexToRgb_eval:
  "hexToRgb ''#FF0000'' = (255, 0, 0)" "hexToRgb ''#00FF00'' = (0, 255, 0)"
  "hexToRgb ''#0000FF'' = (0, 0, 255)" "hexToRgb ''#FFFF00'' = (255, 255, 0)"
  "hexToRgb ''#FF00FF'' = (255, 0, 255)" "hexToRgb ''#00FFFF'' = (0, 255, 255)"
  "hexToRgb ''#FFFFFF'' = (255, 255, 255)" "hexToRgb ''#000000'' = (0, 0, 0)"
  by (simp_all add: hexToRgb_def parseHex2_def hexDigit_def)

lemma findClosestColor_white:
  "findClosestColor (255, 255, 255)
     = \<lparr> mcolor = Some (Color ''#FFFFFF''), mindex = 6, mdistance = Some 0 \<rparr>"
  by (simp add: findClosestColor_def closestStep_def COLORS_def colorName_def hexToRgb_eval
      colorDistance_def upt_rec Let_def)

lemma findClosestColor_red:
  "findClosestColor (255, 0, 0)
     = \<lparr> mcolor = Some (Color ''#FF0000''), mindex = 0, mdistance = Some 0 \<rparr>"
  by (simp add: findClosestColor_def closestStep_def COLORS_def colorName_def hexToRgb_eval
      colorDistance_def upt_rec Let_def)

lemma analyzeAll_red_white:
  "analyzeAll (createFrameAnalyzer 50 50 2)
     [((255, 0, 0), 0), ((255, 0, 0), 60), ((255, 255, 255), 70), ((255, 255, 255), 130)]
   = [(Color ''#FF0000'', 60), (Color ''#FFFFFF'', 130)]"
  by (simp add: createFrameAnalyzer_def analyzeColor_def findClosestColor_red
      findClosestColor_white aboveThreshold_def Let_def)

text \<open>
  C9. For every sequence of (sample, timestamp) inputs given to the classifier (from any
  state whose sample buffer holds matched colours), two consecutive detection events
  never carry the same symbol, and the later one comes at least \<open>minChangeTime\<close> after
  the earlier one.
\<close>

theorem classifier_events_debounced:
  assumes "None \<notin> set (currentSamples a)" and "Suc i < length (analyzeAll a inputs)"
  shows "fst (analyzeAll a inputs ! i) \<noteq> fst (analyzeAll a inputs ! Suc i)
       \<and> minChangeTime a \<le> snd (analyzeAll a inputs ! Suc i) - snd (analyzeAll a inputs ! i)"
  using analyzeAll_spaced [OF assms(1), of inputs] assms(2) spaced_nth by blast

theorem classifier_events_debounced_witness:
  "None \<notin> set (currentSamples (createFrameAnalyzer 50 50 2))
   \<and> Suc 0 < length (analyzeAll (createFrameAnalyzer 50 50 2)
        [((255, 0, 0), 0), ((255, 0, 0), 60), ((255, 255, 255), 70), ((255, 255, 255), 130)])
   \<and> analyzeAll (createFrameAnalyzer 50 50 2)
        [((255, 0, 0), 0), ((255, 0, 0), 60), ((255, 255, 255), 70), ((255, 255, 255), 130)]
      = [(Color ''#FF0000'', 60), (Color ''#FFFFFF'', 130)]
   \<and> minChangeTime (createFrameAnalyzer 50 50 2) \<le> 130 - 60"
  using classifier_events_debounced [of "createFrameAnalyzer 50 50 2" 0
      "[((255, 0, 0), 0), ((255, 0, 0), 60), ((255, 255, 255), 70), ((255, 255, 255), 130)]"]
  unfolding analyzeAll_red_white by (simp add: createFrameAnalyzer_def)

section \<open>Properties of the framing state machine\<close>

lemma processReceivedColor_collecting:
  assumes "collecting st" and "c \<noteq> START_SIGNAL" and "c \<noteq> END_SIGNAL"
  shows "processReceivedColor (Some st) c = st\<lparr>dcolors := dcolors st @ [c]\<rparr>"
  using assms by (simp add: processReceivedColor_def Let_def)

lemma analyzeColor_collectingTracker_white:
  "analyzeColor (tanalyzer collectingTracker) (255, 255, 255) 100 =
     (\<lparr> threshold = 50, minChangeTime = 50, samplesRequired = 1,
        lastDetectedColor = Some SYNC_SIGNAL, lastChangeTime = 100,
        stableColorCount = 0, currentSamples = [Some SYNC_SIGNAL] \<rparr>, Some SYNC_SIGNAL)"
  by (simp add: collectingTracker_def analyzeColor_def findClosestColor_white
      aboveThreshold_def sig_defs Let_def)

text \<open>
  The visual channel. While the tracker is collecting (tracking, with a collecting,
  incomplete decoding state, below the maximum sequence length), a detected SYNC symbol
  sets \<open>lastActivityTime\<close> and is appended both to the tracker's colour sequence and to
  the buffer of the decoding state; the only status reported is 'tracking'.
\<close>

lemma processColor_sync:
  assumes "tracking tr" and "tdecodingState tr = Some st" and "collecting st"
    and "\<not> complete st"
    and "analyzeColor (tanalyzer tr) rgb t = (an, Some SYNC_SIGNAL)"
    and "length (colorSequence tr) < maxSequenceLength tr"
  shows "processColor tr rgb t =
           (tr\<lparr>lastActivityTime := t, tanalyzer := an,
               colorSequence := colorSequence tr @ [SYNC_SIGNAL],
               tdecodingState := Some (st\<lparr>dcolors := dcolors st @ [SYNC_SIGNAL]\<rparr>)\<rparr>,
            [StatusTracking SYNC_SIGNAL (Suc (length (colorSequence tr)))])"
proof -
  have "processReceivedColor (Some st) SYNC_SIGNAL = st\<lparr>dcolors := dcolors st @ [SYNC_SIGNAL]\<rparr>"
    using assms(3) by (intro processReceivedColor_collecting) (simp_all add: sig_defs)
  then show ?thesis
    using assms by (simp add: processColor_def truthy_def SYNC_SIGNAL_def Let_def)
qed

text \<open>
  The audio channel. While the decoder is decoding, a frame whose dominant frequency lies
  within the tolerance of the sync frequency only sets \<open>lastSymbolTime\<close>: the symbol
  buffer is unchanged, no status is reported and the timeout does not fire.
\<close>

lemma processAudioFrame_sync:
  assumes "isListening s" and "isDecoding s"
    and "findDominantFrequency dataArray sampleRate = Some f"
    and "\<bar>f - syncFreq\<bar> < frequencyTolerance"
  shows "processAudioFrame s dataArray sampleRate now = (s\<lparr>lastSymbolTime := now\<rparr>, [])"
proof -
  from assms(4) have "f \<noteq> 0" "\<not> \<bar>f - endMarkerFreq\<bar> < frequencyTolerance"
    by (simp_all add: syncFreq_def frequencyTolerance_def endMarkerFreq_def)
  with assms show ?thesis
    by (simp add: processAudioFrame_def Let_def symbolDuration_def)
qed

text \<open>
  For contrast, a frame at the frequency of a data symbol \<open>i\<close> (other than 4 and 6, whose
  frequencies are the sync and the end marker), late enough after the last symbol, appends
  \<open>i\<close> to the symbol buffer.
\<close>

lemma processAudioFrame_symbol:
  assumes "isListening s" and "isDecoding s"
    and "findDominantFrequency dataArray sampleRate = Some f"
    and "\<bar>f - (baseFrequency + real_of_int i * freqShift)\<bar> < frequencyTolerance"
    and "0 \<le> i" and "i < symbolCount" and "i \<noteq> 4" and "i \<noteq> 6"
    and "symbolDuration - 1 / 100 \<le> now - lastSymbolTime s"
  shows "processAudioFrame s dataArray sampleRate now =
           (s\<lparr>symbolBuffer := symbolBuffer s @ [i], lastSymbolTime := now\<rparr>,
            [AudioSymbol i f (Suc (length (symbolBuffer s)))])"
proof -
  from assms(5-8) have i: "i = 0 \<or> i = 1 \<or> i = 2 \<or> i = 3 \<or> i = 5 \<or> i = 7"
    unfolding symbolCount_def by presburger
  from assms(4) have r: "mathRound ((f - baseFrequency) / freqShift) = i"
    unfolding mathRound_def baseFrequency_def freqShift_def frequencyTolerance_def
    by (simp add: floor_eq_iff field_simps) linarith
  from i assms(4) have n: "f \<noteq> 0" "\<not> \<bar>f - endMarkerFreq\<bar> < frequencyTolerance"
    "\<not> \<bar>f - syncFreq\<bar> < frequencyTolerance"
    unfolding baseFrequency_def freqShift_def frequencyTolerance_def endMarkerFreq_def syncFreq_def
    by auto
  from assms(1-3,5,6,9) r n show ?thesis
    by (simp add: processAudioFrame_def Let_def symbolDuration_def)
qed

lemma findDominantFrequency_syncFrame: "findDominantFrequency syncFrame 14400 = Some 1800"
  by (simp add: findDominantFrequency_def syncFrame_def dominantStep_def minSignalStrength_def
      upt_rec Let_def)

text \<open>
  C5, as the code has it, for the two framing state machines. In the visual one
  (\<open>processColor\<close> with \<open>processReceivedColor\<close>), while collecting, a detected SYNC symbol
  sets \<open>lastActivityTime\<close> and is appended to the colour sequence and to the buffer of the
  decoding state, like any symbol other than START and END. In the audio one
  (\<open>processAudioFrame\<close>), while decoding, a SYNC symbol only sets \<open>lastSymbolTime\<close>: the
  symbol buffer is unchanged and the decoder keeps decoding.
\<close>

theorem sync_while_collecting:
  "(tracking tr \<and> tdecodingState tr = Some st \<and> collecting st \<and> \<not> complete st
      \<and> analyzeColor (tanalyzer tr) rgb t = (an, Some SYNC_SIGNAL)
      \<and> length (colorSequence tr) < maxSequenceLength tr
    \<longrightarrow> processColor tr rgb t =
           (tr\<lparr>lastActivityTime := t, tanalyzer := an,
               colorSequence := colorSequence tr @ [SYNC_SIGNAL],
               tdecodingState := Some (st\<lparr>dcolors := dcolors st @ [SYNC_SIGNAL]\<rparr>)\<rparr>,
            [StatusTracking SYNC_SIGNAL (Suc (length (colorSequence tr)))]))
   \<and> (isListening s \<and> isDecoding s
      \<and> findDominantFrequency dataArray sampleRate = Some f
      \<and> \<bar>f - syncFreq\<bar> < frequencyTolerance
    \<longrightarrow> processAudioFrame s dataArray sampleRate now = (s\<lparr>lastSymbolTime := now\<rparr>, [])
        \<and> symbolBuffer (fst (processAudioFrame s dataArray sampleRate now)) = symbolBuffer s
        \<and> isDecoding (fst (processAudioFrame s dataArray sampleRate now)))"
proof (intro conjI impI)
  assume "tracking tr \<and> tdecodingState tr = Some st \<and> collecting st \<and> \<not> complete st
      \<and> analyzeColor (tanalyzer tr) rgb t = (an, Some SYNC_SIGNAL)
      \<and> length (colorSequence tr) < maxSequenceLength tr"
  then show "processColor tr rgb t =
           (tr\<lparr>lastActivityTime := t, tanalyzer := an,
               colorSequence := colorSequence tr @ [SYNC_SIGNAL],
               tdecodingState := Some (st\<lparr>dcolors := dcolors st @ [SYNC_SIGNAL]\<rparr>)\<rparr>,
            [StatusTracking SYNC_SIGNAL (Suc (length (colorSequence tr)))])"
    by (intro processColor_sync) simp_all
next
  assume "isListening s \<and> isDecoding s
      \<and> findDominantFrequency dataArray sampleRate = Some f
      \<and> \<bar>f - syncFreq\<bar> < frequencyTolerance"
  then have "isListening s" and d: "isDecoding s"
    and "findDominantFrequency dataArray sampleRate = Some f"
    and "\<bar>f - syncFreq\<bar> < frequencyTolerance"
    by blast+
  then have p: "processAudioFrame s dataArray sampleRate now = (s\<lparr>lastSymbolTime := now\<rparr>, [])"
    by (rule processAudioFrame_sync)
  show "processAudioFrame s dataArray sampleRate now = (s\<lparr>lastSymbolTime := now\<rparr>, [])"
    by (rule p)
  show "symbolBuffer (fst (processAudioFrame s dataArray sampleRate now)) = symbolBuffer s"
    by (simp add: p)
  show "isDecoding (fst (processAudioFrame s dataArray sampleRate now))"
    using d by (simp add: p)
qed

theorem sync_while_collecting_witness:
  "tracking collectingTracker
   \<and> map_option collecting (tdecodingState collectingTracker) = Some True
   \<and> map_option complete (tdecodingState collectingTracker) = Some False
   \<and> snd (analyzeColor (tanalyzer collectingTracker) (255, 255, 255) 100) = Some SYNC_SIGNAL
   \<and> length (colorSequence collectingTracker) < maxSequenceLength collectingTracker
   \<and> colorSequence (fst (processColor collectingTracker (255, 255, 255) 100))
        = [START_SIGNAL, SYNC_SIGNAL]
   \<and> lastActivityTime (fst (processColor collectingTracker (255, 255, 255) 100)) = 100
   \<and> snd (processColor collectingTracker (255, 255, 255) 100) = [StatusTracking SYNC_SIGNAL 2]
   \<and> isListening collectingAudio \<and> isDecoding collectingAudio
   \<and> findDominantFrequency syncFrame 14400 = Some 1800
   \<and> \<bar>1800 - syncFreq\<bar> < frequencyTolerance
   \<and> processAudioFrame collectingAudio syncFrame 14400 2 =
       (\<lparr> isListening = True, isDecoding = True, symbolBuffer = [0, 3],
           lastSymbolTime = 2, currentMessage = None \<rparr>, [])"
proof -
  note an = analyzeColor_collectingTracker_white
  note fd = findDominantFrequency_syncFrame
  let ?st = "\<lparr> collecting = True, dcolors = [START_SIGNAL], complete = False,
           dmessage = None, derror = None \<rparr>"
  have v: "tracking collectingTracker \<and> tdecodingState collectingTracker = Some ?st
      \<and> collecting ?st \<and> \<not> complete ?st
      \<and> analyzeColor (tanalyzer collectingTracker) (255, 255, 255) 100
          = (fst (analyzeColor (tanalyzer collectingTracker) (255, 255, 255) 100), Some SYNC_SIGNAL)
      \<and> length (colorSequence collectingTracker) < maxSequenceLength collectingTracker"
    by (simp add: an) (simp add: collectingTracker_def)
  have a: "isListening collectingAudio \<and> isDecoding collectingAudio
      \<and> findDominantFrequency syncFrame 14400 = Some 1800
      \<and> \<bar>1800 - syncFreq\<bar> < frequencyTolerance"
    by (simp add: fd collectingAudio_def syncFreq_def frequencyTolerance_def)
  from sync_while_collecting [of collectingTracker ?st "(255, 255, 255)" 100
      "fst (analyzeColor (tanalyzer collectingTracker) (255, 255, 255) 100)"
      collectingAudio syncFrame 14400 1800 2] v a
  have r: "processColor collectingTracker (255, 255, 255) 100 =
          (collectingTracker\<lparr>lastActivityTime := 100,
             tanalyzer := fst (analyzeColor (tanalyzer collectingTracker) (255, 255, 255) 100),
             colorSequence := colorSequence collectingTracker @ [SYNC_SIGNAL],
             tdecodingState := Some (?st\<lparr>dcolors := dcolors ?st @ [SYNC_SIGNAL]\<rparr>)\<rparr>,
           [StatusTracking SYNC_SIGNAL (Suc (length (colorSequence collectingTracker)))])"
    and q: "processAudioFrame collectingAudio syncFrame 14400 2
              = (collectingAudio\<lparr>lastSymbolTime := 2\<rparr>, [])"
    by blast+
  from v a show ?thesis
    unfolding r q by (simp add: an) (simp add: collectingTracker_def collectingAudio_def)
qed

text \<open>
  The claim C5 as stated fails in the visual state machine: in the collecting tracker,
  processing a detected SYNC symbol changes the buffer of the decoding state from START to
  START, SYNC.
\<close>

theorem sync_appended_to_buffer_counterexample:
  "tracking collectingTracker
   \<and> map_option dcolors (tdecodingState collectingTracker) = Some [START_SIGNAL]
   \<and> snd (analyzeColor (tanalyzer collectingTracker) (255, 255, 255) 100) = Some SYNC_SIGNAL
   \<and> map_option dcolors (tdecodingState (fst (processColor collectingTracker (255, 255, 255) 100)))
        = Some [START_SIGNAL, SYNC_SIGNAL]"
  by (simp add: processColor_def analyzeColor_collectingTracker_white truthy_def
      processReceivedColor_def Let_def)
    (simp add: collectingTracker_def sig_defs)

section \<open>Properties of the sequencer and the assembler\<close>

lemma concat_chunksOf: "0 < k \<Longrightarrow> concat (chunksOf k xs) = xs"
proof (induction k xs rule: chunksOf.induct)
  case (1 k xs)
  show ?case
  proof (cases "xs = []")
    case True
    then show ?thesis by (simp add: chunksOf.simps)
  next
    case False
    with 1 show ?thesis by (subst chunksOf.simps) simp
  qed
qed

lemma ceil_div_step:
  assumes "0 < k" and "0 < n"
  shows "(n + k - 1) div k = Suc ((n - k + k - 1) div k)"
proof -
  have e: "n + k - 1 = (n - 1) + k" using assms by simp
  have "((n - 1) + k) div k = (n - 1) div k + 1"
    using assms(1) by (intro div_add_self2) simp
  with e have l: "(n + k - 1) div k = Suc ((n - 1) div k)"
    by (simp only: Suc_eq_plus1)
  show ?thesis
  proof (cases "n \<le> k")
    case True
    then have "n - k + k - 1 = k - 1" by simp
    moreover have "(k - 1) div k = 0" using assms by simp
    moreover have "(n - 1) div k = 0" using True assms by simp
    ultimately show ?thesis using l by simp
  next
    case False
    then have "n - k + k - 1 = n - 1" by simp
    then show ?thesis using l by simp
  qed
qed

lemma length_chunksOf: "0 < k \<Longrightarrow> length (chunksOf k xs) = (length xs + k - 1) div k"
proof (induction k xs rule: chunksOf.induct)
  case (1 k xs)
  show ?case
  proof (cases "xs = []")
    case True
    with 1 show ?thesis by (simp add: chunksOf.simps)
  next
    case False
    then have len: "0 < length xs" by simp
    have ih: "length (chunksOf k (drop k xs)) = (length xs - k + k - 1) div k"
      using 1 False by simp
    have "length (chunksOf k xs) = Suc (length (chunksOf k (drop k xs)))"
      using False 1(2) by (subst chunksOf.simps) simp
    then show ?thesis
      using ih ceil_div_step [OF 1(2) len] by simp
  qed
qed

lemma ceiling_div_nat:
  assumes "0 < k"
  shows "\<lceil>real n / real k\<rceil> = int ((n + k - 1) div k)"
proof -
  define q where "q = (n + k - 1) div k"
  have 1: "n \<le> q * k"
  proof -
    have "n + k - 1 < (Suc q) * k"
      unfolding q_def using assms by (metis dividend_less_div_times mult.commute mult_Suc add.commute)
    then show ?thesis using assms by simp
  qed
  have 2: "q = 0 \<or> (q - 1) * k < n"
  proof (cases "q = 0")
    case False
    have "q * k \<le> n + k - 1" unfolding q_def by simp
    then have "(q - 1) * k + k \<le> n + k - 1" using False
      by (metis Suc_pred' mult_Suc add.commute neq0_conv One_nat_def)
    then show ?thesis using assms by linarith
  qed simp
  have "\<lceil>real n / real k\<rceil> = int q"
  proof (rule ceiling_unique)
    show "real_of_int (int q) - 1 < real n / real k"
    proof (cases "q = 0")
      case True
      have "0 \<le> real n / real k" by simp
      then have "- 1 < real n / real k" by linarith
      with True show ?thesis by simp
    next
      case False
      with 2 have "(q - 1) * k < n" by simp
      then have "real ((q - 1) * k) < real n" by (simp only: of_nat_less_iff)
      then have "real (q - 1) < real n / real k"
        using assms by (simp add: pos_less_divide_eq)
      then show ?thesis using False by (simp add: of_nat_diff)
    qed
    show "real n / real k \<le> real_of_int (int q)"
    proof -
      from 1 have "real n \<le> real (q * k)" by (simp only: of_nat_le_iff)
      then show ?thesis using assms by (simp add: pos_divide_le_eq)
    qed
  qed
  then show ?thesis by (simp add: q_def)
qed

lemma card_full: "R \<subseteq> {..<n} \<Longrightarrow> (card R = n) = (R = {..<(n::nat)})"
  by (metis card_lessThan card_subset_eq finite_lessThan)

lemma slots_full:
  assumes "length xs = n" and "\<forall>i<n. xs ! i = Some (G i)"
  shows "concat (map (\<lambda>slot. case slot of None \<Rightarrow> [] | Some f \<Rightarrow> content f) xs)
           = concat (map (\<lambda>i. content (G i)) [0..<n])"
proof -
  have "xs = map (\<lambda>i. Some (G i)) [0..<n]"
    using assms by (intro nth_equalityI) simp_all
  then show ?thesis by (simp add: comp_def)
qed

lemma addFragment_step:
  assumes ok: "fragOK G n sq" and inv: "asmInv G n sq a R" and R: "R \<subseteq> {..<n}"
    and i: "i < n" "i \<notin> R"
  shows "if insert i R = {..<n}
         then \<exists>msg a'. addFragment a (G i) = (Assembled msg, a')
                \<and> content msg = concat (map (\<lambda>j. content (G j)) [0..<n])
         else \<exists>a'. addFragment a (G i) = (Null, a') \<and> asmInv G n sq a' (insert i R)"
proof -
  from ok i have g: "fragmentNumber (G i) = i" "fragmentCount (G i) = n"
    "sequenceNumber (G i) = sq" "isFragment (G i)"
    by (simp_all add: fragOK_def)
  have fin: "finite R" using R finite_subset by blast
  have cardi: "card (insert i R) = Suc (card R)" using fin i(2) by simp
  have sub: "insert i R \<subseteq> {..<n}" using R i(1) by simp
  note full = card_full [OF sub]
  define fd0 where "fd0 = (case buffers a sq of
       Some fd \<Rightarrow> fd
     | None \<Rightarrow> \<lparr> slots = replicate n None, received = 0, fdType = mtype (G i),
                 fdEncoding = encoding (G i), fdTotalLength = totalLength (G i) \<rparr>)"
  have fd0: "length (slots fd0) = n" "\<forall>j<n. slots fd0 ! j = (if j \<in> R then Some (G j) else None)"
    "received fd0 = card R"
    using inv by (auto simp: asmInv_def fd0_def)
  define fd' where "fd' = fd0\<lparr>slots := slotSet (slots fd0) i (G i), received := received fd0 + 1\<rparr>"
  have free: "slotGet (slots fd0) i = None"
    using fd0 i by (simp add: slotGet_def)
  have fd': "length (slots fd') = n"
    "\<forall>j<n. slots fd' ! j = (if j \<in> insert i R then Some (G j) else None)"
    "received fd' = card (insert i R)"
    using fd0 i cardi by (auto simp: fd'_def slotSet_def nth_list_update)
  define a1 where "a1 = (case buffers a sq of
       Some fd \<Rightarrow> a
     | None \<Rightarrow> a\<lparr>buffers := (buffers a)(sq \<mapsto> fd0), timeouts := insert sq (timeouts a)\<rparr>)"
  define a2 where "a2 = a1\<lparr>buffers := (buffers a1)(sq \<mapsto> fd')\<rparr>"
  have b1: "buffers a1 sq = Some fd0"
    by (cases "buffers a sq") (simp_all add: a1_def fd0_def)
  have eq: "addFragment a (G i) = (if received fd' = n then assembleMessage a2 sq fd' else (Null, a2))"
  proof (cases "buffers a sq")
    case None
    then have "fd0 = \<lparr> slots = replicate n None, received = 0, fdType = mtype (G i),
                 fdEncoding = encoding (G i), fdTotalLength = totalLength (G i) \<rparr>"
      by (simp add: fd0_def)
    with None free g show ?thesis
      by (simp add: addFragment_def Let_def a2_def a1_def fd'_def)
  next
    case (Some fd)
    then have "fd0 = fd" by (simp add: fd0_def)
    with Some free g show ?thesis
      by (simp add: addFragment_def Let_def a2_def a1_def fd'_def)
  qed
  show ?thesis
  proof (cases "insert i R = {..<n}")
    case True
    then have r: "received fd' = n" using fd'(3) full by simp
    have "\<forall>j<n. slots fd' ! j = Some (G j)" using fd'(2) True by auto
    note c = slots_full [OF fd'(1) this]
    show ?thesis
      using True by (simp add: eq r assembleMessage_def Let_def c)
  next
    case False
    then have r: "received fd' \<noteq> n" using fd'(3) full by simp
    have "asmInv G n sq a2 (insert i R)"
      unfolding asmInv_def using fd' by (intro disjI2 exI [of _ fd']) (simp add: a2_def)
    then show ?thesis
      using False by (simp add: eq r)
  qed
qed

lemma addFragments_run:
  assumes ok: "fragOK G n sq"
  shows "asmInv G n sq a R \<Longrightarrow> R \<subseteq> {..<n} \<Longrightarrow> distinct js \<Longrightarrow> set js \<subseteq> {..<n} - R \<Longrightarrow>
     (if R \<union> set js = {..<n} \<and> js \<noteq> []
      then \<exists>msg a'. addFragments a (map G js) = (replicate (length js - 1) Null @ [Assembled msg], a')
              \<and> content msg = concat (map (\<lambda>j. content (G j)) [0..<n])
      else \<exists>a'. addFragments a (map G js) = (replicate (length js) Null, a')
              \<and> asmInv G n sq a' (R \<union> set js))"
proof (induction js arbitrary: a R)
  case Nil
  then show ?case by simp
next
  case (Cons i js)
  from Cons.prems have i: "i < n" "i \<notin> R" and ijs: "i \<notin> set js" and djs: "distinct js"
    and sjs: "set js \<subseteq> {..<n} - insert i R"
    by auto
  note step = addFragment_step [OF ok Cons.prems(1,2) i]
  show ?case
  proof (cases "insert i R = {..<n}")
    case True
    with sjs have "js = []" by auto
    with True step show ?thesis by auto
  next
    case False
    with step obtain a1 where a1: "addFragment a (G i) = (Null, a1)"
      and inv1: "asmInv G n sq a1 (insert i R)"
      by auto
    have sub1: "insert i R \<subseteq> {..<n}" using Cons.prems(2) i(1) by simp
    note ih = Cons.IH [OF inv1 sub1 djs sjs]
    have un: "R \<union> set (i # js) = insert i R \<union> set js" by simp
    show ?thesis
    proof (cases "insert i R \<union> set js = {..<n} \<and> js \<noteq> []")
      case True
      from ih have "\<exists>msg a'. addFragments a1 (map G js)
                 = (replicate (length js - 1) Null @ [Assembled msg], a')
              \<and> content msg = concat (map (\<lambda>j. content (G j)) [0..<n])"
        unfolding if_P [OF True] .
      then obtain msg a' where
        r: "addFragments a1 (map G js) = (replicate (length js - 1) Null @ [Assembled msg], a')"
        and c: "content msg = concat (map (\<lambda>j. content (G j)) [0..<n])"
        by blast
      from True have "length js - 1 + 1 = length js" by (cases js) simp_all
      then have "Null # replicate (length js - 1) Null = replicate (length js) Null"
        by (metis replicate_Suc Suc_eq_plus1)
      with True r c a1 show ?thesis unfolding un by simp
    next
      case nf: False
      from ih have "\<exists>a'. addFragments a1 (map G js) = (replicate (length js) Null, a')
              \<and> asmInv G n sq a' (insert i R \<union> set js)"
        unfolding if_not_P [OF nf] .
      then obtain a' where
        r: "addFragments a1 (map G js) = (replicate (length js) Null, a')"
        and inv': "asmInv G n sq a' (insert i R \<union> set js)"
        by blast
      from nf False have "insert i R \<union> set js \<noteq> {..<n}" by (cases js) auto
      with r inv' a1 show ?thesis unfolding un by simp
    qed
  qed
qed

lemma addFragments_all:
  assumes ok: "fragOK G n sq" and empty: "buffers a sq = None" and n: "0 < n"
    and perm: "mset js = mset [0..<n]"
  shows "\<exists>msg a'. addFragments a (map G js) = (replicate (n - 1) Null @ [Assembled msg], a')
           \<and> content msg = concat (map (\<lambda>j. content (G j)) [0..<n])"
proof -
  have d: "distinct js" using perm by (metis distinct_upt mset_eq_imp_distinct_iff)
  have s: "set js = {..<n}" using perm by (metis mset_eq_setD atLeast_upt set_upt atLeast0LessThan)
  have l: "length js = n" using perm by (metis length_upt mset_eq_length diff_zero)
  have inv: "asmInv G n sq a {}" using empty by (simp add: asmInv_def)
  have ne: "js \<noteq> []" using l n by auto
  from addFragments_run [OF ok inv _ d, of ] s ne l show ?thesis by simp
qed

lemma map_zip_upt:
  "map (\<lambda>(x, i). F x i) (zip xs [0..<length xs]) = map (\<lambda>i. F (xs ! i) i) [0..<length xs]"
  by (intro nth_equalityI) simp_all

text \<open>
  Whatever \<open>fragmentMessage\<close> returns is reassembled: the fragments, fed in any order to
  an assembler that holds no buffer for the sequence number, give one delivered message,
  by the last call.
\<close>

lemma fragmentMessage_result_reassembles:
  assumes fm: "fragmentMessage s m = Some (frs, s')"
    and empty: "buffers a (currentSequence s) = None"
    and perm: "mset fs = mset frs"
  shows "(\<exists>rs a'. addFragments a fs = (rs, a')
            \<and> map deliveredContent rs = replicate (length frs - 1) None @ [Some (content m)])
       \<and> (\<forall>f\<in>set frs. sequenceNumber f = currentSequence s
            \<and> int (fragmentCount f)
                = (if content m = [] then 1
                   else \<lceil>real (length (content m)) / real (maxPayloadSize s)\<rceil>))
       \<and> s' = incrementSequence s"
proof (cases "length (content m) \<le> maxPayloadSize s")
  case True
  define single where "single = \<lparr> content = content m, mtype = mtype m, encoding = encoding m,
                    sequenceNumber = currentSequence s, fragmentCount = 1, fragmentNumber = 0,
                    totalLength = length (content m), isFragment = False \<rparr>"
  from fm True have frs: "frs = [single]" and s': "s' = incrementSequence s"
    by (simp_all add: fragmentMessage_def single_def)
  from perm frs have fs: "fs = [single]" by simp
  have run: "addFragments a fs = ([Passed single], a)"
    by (simp add: fs addFragment_def single_def)
  have cnt: "int (fragmentCount single)
       = (if content m = [] then 1 else \<lceil>real (length (content m)) / real (maxPayloadSize s)\<rceil>)"
  proof (cases "content m = []")
    case True
    then show ?thesis by (simp add: single_def)
  next
    case False
    then have pos: "0 < length (content m)" by simp
    with True have k: "0 < maxPayloadSize s" by linarith
    have "(length (content m) + maxPayloadSize s - 1) div maxPayloadSize s = 1"
      using ceil_div_step [OF k pos] True k by simp
    with False show ?thesis
      by (simp add: ceiling_div_nat [OF k] single_def)
  qed
  show ?thesis
    using run cnt s' by (simp add: frs deliveredContent_def) (simp add: single_def)
next
  case False
  define k where "k = maxPayloadSize s"
  define chunks where "chunks = chunksOf k (content m)"
  define n where "n = length chunks"
  define sq where "sq = currentSequence s"
  define G where "G = (\<lambda>i. \<lparr> content = chunks ! i, mtype = mtype m, encoding = encoding m,
                          sequenceNumber = sq, fragmentCount = n,
                          fragmentNumber = i, totalLength = length (content m),
                          isFragment = True \<rparr>)"
  from fm False have k: "0 < k"
    by (auto simp: fragmentMessage_def k_def split: if_splits)
  from fm False k have frs0: "frs = map (\<lambda>(chunk, index).
                        \<lparr> content = chunk, mtype = mtype m, encoding = encoding m,
                          sequenceNumber = sq, fragmentCount = n,
                          fragmentNumber = index, totalLength = length (content m),
                          isFragment = True \<rparr>) (zip chunks [0..<length chunks])"
    and s': "s' = incrementSequence s"
    by (simp_all add: fragmentMessage_def Let_def k_def chunks_def n_def sq_def)
  have frs: "frs = map G [0..<n]"
    unfolding frs0 G_def n_def by (rule map_zip_upt)
  have ok: "fragOK G n sq" by (simp add: fragOK_def G_def)
  from False have ne: "content m \<noteq> []" by auto
  have nlen: "n = (length (content m) + k - 1) div k"
    unfolding n_def chunks_def by (rule length_chunksOf [OF k])
  have npos: "0 < n"
    using ne k ceil_div_step [of k "length (content m)"] by (simp add: nlen)
  define js where "js = map fragmentNumber fs"
  have inG: "f \<in> set fs \<Longrightarrow> G (fragmentNumber f) = f" for f
  proof -
    assume "f \<in> set fs"
    then have "f \<in> set frs" using perm by (metis mset_eq_setD)
    then obtain i where "i < n" "f = G i" by (auto simp: frs)
    then show ?thesis by (simp add: G_def)
  qed
  have fsG: "fs = map G js"
    unfolding js_def by (simp add: map_idI inG)
  have "mset js = image_mset fragmentNumber (mset frs)"
    unfolding js_def using perm by (metis mset_map)
  also have "\<dots> = mset (map fragmentNumber (map G [0..<n]))"
    unfolding frs by (simp only: mset_map)
  also have "map fragmentNumber (map G [0..<n]) = [0..<n]"
    by (simp add: G_def map_idI comp_def)
  finally have pjs: "mset js = mset [0..<n]" .
  from addFragments_all [OF ok _ npos pjs, of a] empty
  obtain msg a' where
    run: "addFragments a (map G js) = (replicate (n - 1) Null @ [Assembled msg], a')"
    and c: "content msg = concat (map (\<lambda>j. content (G j)) [0..<n])"
    by (auto simp: sq_def)
  have "map (\<lambda>j. content (G j)) [0..<n] = chunks"
    by (simp add: G_def n_def map_nth)
  then have "content msg = content m"
    using c concat_chunksOf [OF k, of "content m"] by (simp add: chunks_def)
  then have part1: "\<exists>rs a'. addFragments a fs = (rs, a')
            \<and> map deliveredContent rs = replicate (length frs - 1) None @ [Some (content m)]"
    using run by (simp add: fsG frs deliveredContent_def)
  have part2: "\<forall>f\<in>set frs. sequenceNumber f = currentSequence s
            \<and> int (fragmentCount f)
                = (if content m = [] then 1
                   else \<lceil>real (length (content m)) / real (maxPayloadSize s)\<rceil>)"
    using ne ceiling_div_nat [OF k, of "length (content m)"]
    by (auto simp: frs G_def sq_def nlen k_def)
  show ?thesis using part1 part2 s' by blast
qed

text \<open>
  \<open>fragmentMessage\<close> returns for every sequencer with a positive payload size, and
  \<open>createMessageSequencer\<close> only makes such sequencers.
\<close>

lemma fragmentMessage_returns:
  assumes "0 < maxPayloadSize s"
  shows "\<exists>frs. fragmentMessage s m = Some (frs, incrementSequence s)"
  using assms by (simp add: fragmentMessage_def Let_def)

lemma maxPayloadSize_createMessageSequencer:
  "0 < maxPayloadSize (createMessageSequencer omaxSequence omaxPayloadSize)"
  by (simp add: createMessageSequencer_def split: option.split)

text \<open>
  C7, as the code has it. For every message and every sequencer with a positive payload
  size, \<open>fragmentMessage\<close> returns fragments and advances the sequence counter once;
  feeding all the fragments in any delivery order to an assembler that holds no buffer
  for the sequence number yields exactly one delivered message, returned by the last
  \<open>addFragment\<close> call, whose content is the content of the message (an unfragmented
  message is passed through). All fragments carry the sequencer's current sequence
  number, and \<open>fragmentCount\<close> is the ceiling of \<open>length / maxPayloadSize\<close> for a
  non-empty content and 1 for an empty content.
\<close>

theorem fragment_reassembly:
  assumes pos: "0 < maxPayloadSize s"
    and empty: "buffers a (currentSequence s) = None"
  shows "\<exists>frs. fragmentMessage s m = Some (frs, incrementSequence s)
           \<and> (\<forall>fs. mset fs = mset frs \<longrightarrow>
                (\<exists>rs a'. addFragments a fs = (rs, a')
                   \<and> map deliveredContent rs
                       = replicate (length frs - 1) None @ [Some (content m)]))
           \<and> (\<forall>f\<in>set frs. sequenceNumber f = currentSequence s
                \<and> int (fragmentCount f)
                    = (if content m = [] then 1
                       else \<lceil>real (length (content m)) / real (maxPayloadSize s)\<rceil>))"
proof -
  from fragmentMessage_returns [OF pos]
  obtain frs where fm: "fragmentMessage s m = Some (frs, incrementSequence s)" ..
  have "\<exists>rs a'. addFragments a fs = (rs, a')
          \<and> map deliveredContent rs = replicate (length frs - 1) None @ [Some (content m)]"
    if "mset fs = mset frs" for fs
    using fragmentMessage_result_reassembles [OF fm empty that] by (rule conjunct1)
  moreover have "\<forall>f\<in>set frs. sequenceNumber f = currentSequence s
                \<and> int (fragmentCount f)
                    = (if content m = [] then 1
                       else \<lceil>real (length (content m)) / real (maxPayloadSize s)\<rceil>)"
    using fragmentMessage_result_reassembles [OF fm empty refl]
    by (rule conjunct1 [OF conjunct2])
  ultimately show ?thesis using fm by blast
qed

lemma fragmentMessage_helloWorld:
  "fragmentMessage (createMessageSequencer None (Some 4)) helloWorld =
     Some ([helloFragment 0 [72, 101, 108, 108], helloFragment 1 [111, 87, 111, 114],
            helloFragment 2 [108, 100]],
           \<lparr> maxSequence = 255, maxPayloadSize = 4, currentSequence = 1 \<rparr>)"
  by (simp add: fragmentMessage_def createMessageSequencer_def helloWorld_def helloFragment_def
      incrementSequence_def chunksOf_Nil chunksOf_Cons Let_def upt_rec)

theorem fragment_reassembly_witness:
  "0 < maxPayloadSize (createMessageSequencer None (Some 4))
   \<and> buffers emptyAssembler (currentSequence (createMessageSequencer None (Some 4))) = None
   \<and> fragmentMessage (createMessageSequencer None (Some 4)) helloWorld =
       Some ([helloFragment 0 [72, 101, 108, 108], helloFragment 1 [111, 87, 111, 114],
              helloFragment 2 [108, 100]],
             incrementSequence (createMessageSequencer None (Some 4)))
   \<and> mset [helloFragment 1 [111, 87, 111, 114], helloFragment 0 [72, 101, 108, 108],
            helloFragment 2 [108, 100]]
      = mset [helloFragment 0 [72, 101, 108, 108], helloFragment 1 [111, 87, 111, 114],
            helloFragment 2 [108, 100]]
   \<and> map deliveredContent (fst (addFragments emptyAssembler
          [helloFragment 1 [111, 87, 111, 114], helloFragment 0 [72, 101, 108, 108],
           helloFragment 2 [108, 100]]))
      = [None, None, Some [72, 101, 108, 108, 111, 87, 111, 114, 108, 100]]
   \<and> \<lceil>real (length (content helloWorld))
        / real (maxPayloadSize (createMessageSequencer None (Some 4)))\<rceil> = 3"
proof -
  let ?s = "createMessageSequencer None (Some 4)"
  let ?frs = "[helloFragment 0 [72, 101, 108, 108], helloFragment 1 [111, 87, 111, 114],
            helloFragment 2 [108, 100]]"
  let ?fs = "[helloFragment 1 [111, 87, 111, 114], helloFragment 0 [72, 101, 108, 108],
            helloFragment 2 [108, 100]]"
  have pos: "0 < maxPayloadSize ?s"
    by (simp add: createMessageSequencer_def)
  have e: "buffers emptyAssembler (currentSequence ?s) = None"
    by (simp add: emptyAssembler_def)
  have p: "mset ?fs = mset ?frs"
    by (simp add: add.commute)
  have fm: "fragmentMessage ?s helloWorld = Some (?frs, incrementSequence ?s)"
    unfolding fragmentMessage_helloWorld
    by (simp add: incrementSequence_def createMessageSequencer_def)
  from fragment_reassembly [OF pos e, of helloWorld]
  obtain frs where f1: "fragmentMessage ?s helloWorld = Some (frs, incrementSequence ?s)"
    and f2: "\<And>fs. mset fs = mset frs \<Longrightarrow>
                (\<exists>rs a'. addFragments emptyAssembler fs = (rs, a')
                   \<and> map deliveredContent rs
                       = replicate (length frs - 1) None @ [Some (content helloWorld)])"
    and f3: "\<forall>f\<in>set frs. int (fragmentCount f)
                    = (if content helloWorld = [] then 1
                       else \<lceil>real (length (content helloWorld)) / real (maxPayloadSize ?s)\<rceil>)"
    by blast
  from f1 fm have frs: "frs = ?frs" by simp
  from f2 [of ?fs] p
  have d: "map deliveredContent (fst (addFragments emptyAssembler ?fs))
      = [None, None, Some [72, 101, 108, 108, 111, 87, 111, 114, 108, 100]]"
    unfolding frs by (auto simp: helloWorld_def)
  from f3 have c: "\<lceil>real (length (content helloWorld)) / real (maxPayloadSize ?s)\<rceil> = 3"
    unfolding frs by (simp add: helloWorld_def helloFragment_def)
  from pos e fm p d c show ?thesis by (intro conjI)
qed

text \<open>
  The claim C7 as stated fails for the empty content: the single unit that
  \<open>fragmentMessage\<close> returns has \<open>fragmentCount\<close> 1, while the ceiling of 0 / 1024 is 0.
\<close>

theorem fragmentCount_empty_content_counterexample:
  "fragmentMessage (createMessageSequencer None None) \<lparr> content = [], mtype = ''text'', encoding = ''text'' \<rparr>
     = Some ([\<lparr> content = [], mtype = ''text'', encoding = ''text'', sequenceNumber = 0,
                fragmentCount = 1, fragmentNumber = 0, totalLength = 0, isFragment = False \<rparr>],
             \<lparr> maxSequence = 255, maxPayloadSize = 1024, currentSequence = 1 \<rparr>)
   \<and> \<lceil>real (length ([] :: jsstring)) / real (maxPayloadSize (createMessageSequencer None None))\<rceil> = 0"
  by (simp add: fragmentMessage_def createMessageSequencer_def incrementSequence_def)

section \<open>Round trip of a text through the frame\<close>

lemma binValue_snoc:
  "binValue (ds @ [c]) = 2 * binValue ds + (if c = CHR ''1'' then 1 else 0)"
  by (simp add: binValue_def)

lemma binDigits_binary: "list_all isBinDigit (binDigits n)"
proof (induction n rule: binDigits.induct)
  case (1 n)
  show ?case
  proof (cases "n < 2")
    case True
    then show ?thesis by (subst binDigits.simps) (simp add: isBinDigit_def)
  next
    case False
    have d: "isBinDigit (if n mod 2 = 0 then CHR ''0'' else CHR ''1'')"
      by (simp add: isBinDigit_def)
    from 1 False have "list_all isBinDigit (binDigits (n div 2))" by simp
    with d False show ?thesis by (subst binDigits.simps) (simp del: if_split)
  qed
qed

lemma binValue_binDigits: "binValue (binDigits n) = int n"
proof (induction n rule: binDigits.induct)
  case (1 n)
  show ?case
  proof (cases "n < 2")
    case True
    then have "n = 0 \<or> n = 1" by auto
    then show ?thesis by (auto simp: binDigits_0 binDigits_Suc0 binValue_def)
  next
    case False
    with 1 have ih: "binValue (binDigits (n div 2)) = int (n div 2)" by simp
    have "binDigits n = binDigits (n div 2) @ [if n mod 2 = 0 then CHR ''0'' else CHR ''1'']"
      using False by (subst binDigits.simps) simp
    then have "binValue (binDigits n) = 2 * int (n div 2) + (if n mod 2 = 0 then 0 else 1)"
      by (simp add: binValue_snoc ih)
    also have "\<dots> = int n" by (simp add: zdiv_int zmod_int) presburger
    finally show ?thesis .
  qed
qed

lemma length_binDigits: "n < 2 ^ k \<Longrightarrow> 0 < k \<Longrightarrow> length (binDigits n) \<le> k"
proof (induction n arbitrary: k rule: binDigits.induct)
  case (1 n)
  show ?case
  proof (cases "n < 2")
    case True
    then show ?thesis using 1(3) by (subst binDigits.simps) simp
  next
    case False
    obtain j where k: "k = Suc j" using 1(3) by (cases k) auto
    have j: "0 < j"
    proof (rule ccontr)
      assume "\<not> 0 < j"
      with k 1(2) False show False by simp
    qed
    have "n div 2 < 2 ^ j" using 1(2) k by simp
    from 1(1) [OF False this j] have "length (binDigits (n div 2)) \<le> j" .
    then show ?thesis using False k by (subst binDigits.simps) simp
  qed
qed

lemma binValue_zeros: "binValue (replicate j CHR ''0'' @ ds) = binValue ds"
proof -
  have "foldl (\<lambda>a c. 2 * a + (if c = CHR ''1'' then 1 else 0)) (0::int) (replicate j CHR ''0'') = 0"
    by (induction j) simp_all
  then show ?thesis by (simp add: binValue_def)
qed

lemma list_all_zeros: "list_all isBinDigit (replicate j CHR ''0'')"
  by (induction j) (simp_all add: isBinDigit_def)

lemma toString2_nat: "toString2 (int c) = binDigits c"
  by (simp add: toString2_def)

lemma length_binDigits_byte: "c \<le> 255 \<Longrightarrow> length (binDigits c) \<le> 8"
proof -
  assume "c \<le> 255"
  then have "c < 2 ^ 8" by simp
  then show ?thesis by (rule length_binDigits) simp
qed

lemma bits8_length: "c \<le> 255 \<Longrightarrow> length (bits8 c) = 8"
  using length_binDigits_byte [of c] by (simp add: bits8_def padStart_def toString2_nat)

lemma bits8_binary: "list_all isBinDigit (bits8 c)"
  by (simp add: bits8_def padStart_def toString2_nat list_all_zeros binDigits_binary)

lemma bits8_value: "binValue (bits8 c) = int c"
  by (simp add: bits8_def padStart_def toString2_nat binValue_zeros binValue_binDigits)


lemma parseInt2_binary:
  assumes "s \<noteq> []" and "list_all isBinDigit s"
  shows "parseInt2 s = Num (binValue s)"
proof -
  obtain c cs where s: "s = c # cs" using assms(1) by (cases s) auto
  with assms(2) have c: "isBinDigit c" by simp
  then have ns: "c \<noteq> CHR ''-''" "c \<noteq> CHR ''+''" by (auto simp: isBinDigit_def)
  have tw: "takeWhile isBinDigit s = s"
    using assms(2) by (simp add: takeWhile_eq_all_conv list_all_iff)
  show ?thesis
    unfolding parseInt2_def Let_def using ns assms(1) tw by (simp add: s)
qed

lemma arrayFrom_small:
  "list_all (\<lambda>c. c \<le> 255) us \<Longrightarrow> arrayFrom us = map (\<lambda>c. [c]) us"
  by (induction us rule: arrayFrom.induct) simp_all

lemma textToBinary_small:
  "list_all (\<lambda>c. c \<le> 255) text \<Longrightarrow> textToBinary text = concat (map bits8 text)"
  by (simp add: textToBinary_def arrayFrom_small comp_def charCodeAt0_def bits8_def [abs_def])

lemma chunksOf_blocks:
  assumes "0 < k" and "\<forall>b\<in>set bs. length b = k" and "length pad < k"
  shows "chunksOf k (concat bs @ pad) = bs @ (if pad = [] then [] else [pad])"
  using assms(2)
proof (induction bs)
  case Nil
  show ?case
  proof (cases "pad = []")
    case True
    then show ?thesis by (simp add: chunksOf_Nil)
  next
    case False
    then show ?thesis using assms(1,3) by (subst chunksOf.simps) (simp add: chunksOf_Nil)
  qed
next
  case (Cons b bs)
  then have b: "length b = k" and ih: "chunksOf k (concat bs @ pad) = bs @ (if pad = [] then [] else [pad])"
    by simp_all
  from b assms(1) have "b \<noteq> []" by auto
  then show ?case using b ih assms(1) by (subst chunksOf.simps) simp
qed

lemma chunksOf_padEnd:
  "0 < k \<Longrightarrow> concat (map (padEnd k c) (chunksOf k xs))
                  = xs @ replicate ((k - length xs mod k) mod k) c"
proof (induction k xs rule: chunksOf.induct)
  case (1 k xs)
  show ?case
  proof (cases "xs = []")
    case True
    then show ?thesis by (simp add: chunksOf_Nil)
  next
    case False
    have unf: "chunksOf k xs = take k xs # chunksOf k (drop k xs)"
      using False 1(2) by (subst chunksOf.simps) simp
    have ih: "concat (map (padEnd k c) (chunksOf k (drop k xs)))
                = drop k xs @ replicate ((k - length (drop k xs) mod k) mod k) c"
      using 1 False by simp
    show ?thesis
    proof (cases "k \<le> length xs")
      case True
      then have "padEnd k c (take k xs) = take k xs" by (simp add: padEnd_def)
      moreover have "(length xs - k) mod k = length xs mod k"
        using True by (simp add: le_mod_geq)
      ultimately show ?thesis using ih unf by simp
    next
      case lt: False
      then have "drop k xs = []" "take k xs = xs" by simp_all
      moreover have "(k - length xs mod k) mod k = k - length xs"
        using lt False by simp
      ultimately show ?thesis using unf by (simp add: chunksOf_Nil padEnd_def)
    qed
  qed
qed

lemma chunksOf_props:
  "0 < k \<Longrightarrow> ch \<in> set (chunksOf k xs) \<Longrightarrow> ch \<noteq> [] \<and> length ch \<le> k \<and> set ch \<subseteq> set xs"
proof (induction k xs rule: chunksOf.induct)
  case (1 k xs)
  show ?case
  proof (cases "xs = []")
    case True
    with 1(3) show ?thesis by (simp add: chunksOf_Nil)
  next
    case False
    have unf: "chunksOf k xs = take k xs # chunksOf k (drop k xs)"
      using False 1(2) by (subst chunksOf.simps) simp
    from 1(3) unf consider "ch = take k xs" | "ch \<in> set (chunksOf k (drop k xs))" by auto
    then show ?thesis
    proof cases
      case 1
      then show ?thesis using False \<open>0 < k\<close> by (auto dest: in_set_takeD)
    next
      case 2
      with "1.IH" False \<open>0 < k\<close> show ?thesis by (auto dest: in_set_dropD)
    qed
  qed
qed

lemma binDigit_cases: "isBinDigit c \<Longrightarrow> c = CHR ''0'' \<or> c = CHR ''1''"
  by (simp add: isBinDigit_def)

lemma symbol3:
  assumes "length s = 3" and "list_all isBinDigit s"
  shows "0 \<le> binValue s \<and> binValue s < 8 \<and> padStart 3 CHR ''0'' (toString2 (binValue s)) = s"
proof -
  from assms(1) obtain a b c where s: "s = [a, b, c]"
    by (auto simp: numeral_3_eq_3 length_Suc_conv)
  with assms(2) have "isBinDigit a" "isBinDigit b" "isBinDigit c" by simp_all
  then have "(a = CHR ''0'' \<or> a = CHR ''1'') \<and> (b = CHR ''0'' \<or> b = CHR ''1'')
             \<and> (c = CHR ''0'' \<or> c = CHR ''1'')"
    by (simp add: isBinDigit_def)
  then show ?thesis
    unfolding s by (elim conjE disjE) (simp_all add: binValue_def toString2_def padStart_def ev)
qed

lemma colorToIndex_colorAt:
  assumes "0 \<le> v" and "v < 8"
  shows "colorToIndex (colorAt (Num v)) = v"
proof -
  from assms have "v = 0 \<or> v = 1 \<or> v = 2 \<or> v = 3 \<or> v = 4 \<or> v = 5 \<or> v = 6 \<or> v = 7"
    by arith
  then show ?thesis
    by (elim disjE) (simp_all add: colorAt_def COLORS_def colorToIndex_eval)
qed

lemma foldl_jsAdd_Num: "foldl jsAdd (Num a) (map Num vs) = Num (foldl (+) a vs)"
  by (induction vs arbitrary: a) (simp_all add: jsAdd_def)

lemma foldl_add_nonneg: "0 \<le> a \<Longrightarrow> list_all (\<lambda>v. 0 \<le> v) vs \<Longrightarrow> (0::int) \<le> foldl (+) a vs"
  by (induction vs arbitrary: a) simp_all

text \<open>The data symbols of a binary string.\<close>

lemma binaryToColorIndexes_binary:
  assumes "list_all isBinDigit B"
  shows "\<exists>vs. binaryToColorIndexes B = map Num vs \<and> list_all (\<lambda>v. 0 \<le> v \<and> v < 8) vs
           \<and> colorIndexesToBinary vs = B @ replicate ((3 - length B mod 3) mod 3) CHR ''0''"
proof -
  define chunks where "chunks = chunksOf 3 B"
  define vs where "vs = map (\<lambda>ch. binValue (padEnd 3 CHR ''0'' ch)) chunks"
  have pc: "length (padEnd 3 CHR ''0'' ch) = 3 \<and> list_all isBinDigit (padEnd 3 CHR ''0'' ch)"
    if "ch \<in> set chunks" for ch
  proof -
    from that chunksOf_props [of 3 ch B]
    have "ch \<noteq> []" "length ch \<le> 3" "set ch \<subseteq> set B" by (simp_all add: chunks_def)
    then have l: "length (padEnd 3 CHR ''0'' ch) = 3" by (simp add: padEnd_def)
    from \<open>set ch \<subseteq> set B\<close> assms have "list_all isBinDigit ch"
      unfolding list_all_iff by blast
    moreover have "list_all isBinDigit (replicate (3 - length ch) CHR ''0'')"
      by (induction "3 - length ch") (simp_all add: list_all_iff isBinDigit_def)
    ultimately have "list_all isBinDigit (padEnd 3 CHR ''0'' ch)"
      by (simp add: padEnd_def)
    with l show ?thesis by simp
  qed
  have p1: "parseInt2 (padEnd 3 CHR ''0'' ch) = Num (binValue (padEnd 3 CHR ''0'' ch))"
    if "ch \<in> set chunks" for ch
  proof (rule parseInt2_binary)
    from pc [OF that] show "padEnd 3 CHR ''0'' ch \<noteq> []" by auto
    from pc [OF that] show "list_all isBinDigit (padEnd 3 CHR ''0'' ch)" by simp
  qed
  have 1: "binaryToColorIndexes B = map Num vs"
    using p1 by (simp add: binaryToColorIndexes_def COLOR_BITS_def vs_def chunks_def)
  have s3: "0 \<le> binValue (padEnd 3 CHR ''0'' ch) \<and> binValue (padEnd 3 CHR ''0'' ch) < 8
            \<and> padStart 3 CHR ''0'' (toString2 (binValue (padEnd 3 CHR ''0'' ch))) = padEnd 3 CHR ''0'' ch"
    if "ch \<in> set chunks" for ch
    using pc [OF that] by (intro symbol3) simp_all
  have 2: "list_all (\<lambda>v. 0 \<le> v \<and> v < 8) vs"
    unfolding vs_def list_all_iff using s3 by auto
  have "map (\<lambda>index. padStart 3 CHR ''0'' (toString2 index)) vs = map (padEnd 3 CHR ''0'') chunks"
    unfolding vs_def using s3 by simp
  then have "colorIndexesToBinary vs = concat (map (padEnd 3 CHR ''0'') chunks)"
    by (simp add: colorIndexesToBinary_def COLOR_BITS_def)
  then have 3: "colorIndexesToBinary vs = B @ replicate ((3 - length B mod 3) mod 3) CHR ''0''"
    unfolding chunks_def by (simp add: chunksOf_padEnd)
  from 1 2 3 show ?thesis by blast
qed

lemma checksum_roundtrip:
  assumes "list_all (\<lambda>v. 0 \<le> v \<and> v < 8) vs"
  shows "verifyChecksum (map colorToIndex (map colorAt (map Num vs)))
           (colorToIndex (colorAt (calculateChecksum (map Num vs))))"
    and "map colorToIndex (map colorAt (map Num vs)) = vs"
proof -
  show m: "map colorToIndex (map colorAt (map Num vs)) = vs"
    using assms by (induction vs) (simp_all add: colorToIndex_colorAt)
  have "list_all (\<lambda>v. 0 \<le> v) vs" using assms by (simp add: list_all_iff)
  then have nn: "0 \<le> foldl (+) 0 vs" by (intro foldl_add_nonneg) simp_all
  then have r: "jsRem (foldl (+) 0 vs) 8 = foldl (+) 0 vs mod 8"
    by (cases "foldl (+) 0 vs = 0") (simp_all add: jsRem_def)
  have "calculateChecksum (map Num vs) = Num (foldl (+) 0 vs mod 8)"
    by (simp add: calculateChecksum_def foldl_jsAdd_Num jsRem8_def r)
  moreover have "colorToIndex (colorAt (Num (foldl (+) 0 vs mod 8))) = foldl (+) 0 vs mod 8"
    by (rule colorToIndex_colorAt) simp_all
  ultimately show "verifyChecksum (map colorToIndex (map colorAt (map Num vs)))
           (colorToIndex (colorAt (calculateChecksum (map Num vs))))"
    unfolding m by (simp add: verifyChecksum_def r)
qed

lemma indexFrom_notin:
  "x \<notin> set ys \<Longrightarrow> indexFrom x i (ys @ x # zs) = Some (i + length ys)"
  by (induction ys arbitrary: i) auto

lemma lastIndexOf_at:
  assumes "k = int (length xs)"
  shows "lastIndexOf (xs @ x # rest) x k = Some (length xs)"
proof -
  have "take (nat k + 1) (xs @ x # rest) = xs @ [x]" using assms by simp
  moreover have "min k (int (length (xs @ x # rest)) - 1) = k" using assms by simp
  moreover have "0 \<le> k" using assms by simp
  ultimately show ?thesis
    unfolding lastIndexOf_def Let_def using assms by simp
qed

lemma decode_frame:
  assumes nosync: "SYNC_SIGNAL \<notin> set meta"
    and ok: "verifyChecksum (map colorToIndex dat) (colorToIndex ck)"
  shows "\<exists>d. decode (Some ([START_SIGNAL] @ meta @ [SYNC_SIGNAL] @ dat @ [ck, SYNC_SIGNAL, END_SIGNAL]))
               = Inr d
           \<and> dtext d = binaryToText (colorIndexesToBinary (map colorToIndex dat))"
proof -
  define F where "F = [START_SIGNAL] @ meta @ [SYNC_SIGNAL] @ dat @ [ck, SYNC_SIGNAL, END_SIGNAL]"
  have i0: "(length F < 5) = False" by (simp add: F_def)
  have i1: "indexOf F START_SIGNAL 0 = Some 0" by (simp add: F_def indexOf_def)
  define pre where "pre = [START_SIGNAL] @ meta @ [SYNC_SIGNAL] @ dat @ [ck, SYNC_SIGNAL]"
  define pre' where "pre' = [START_SIGNAL] @ meta @ [SYNC_SIGNAL] @ dat @ [ck]"
  have i2: "lastIndexOf F END_SIGNAL (int (length F) - 1) = Some (length meta + length dat + 4)"
  proof -
    have F: "F = pre @ END_SIGNAL # []" by (simp add: F_def pre_def)
    have k: "int (length F) - 1 = int (length pre)" by (simp add: F_def pre_def)
    have "lastIndexOf (pre @ END_SIGNAL # []) END_SIGNAL (int (length F) - 1) = Some (length pre)"
      by (rule lastIndexOf_at) (rule k)
    then have "lastIndexOf F END_SIGNAL (int (length F) - 1) = Some (length pre)"
      by (simp only: F [symmetric])
    moreover have "length pre = length meta + length dat + 4" by (simp add: pre_def)
    ultimately show ?thesis by (simp only: )
  qed
  have "drop 1 F = meta @ SYNC_SIGNAL # (dat @ [ck, SYNC_SIGNAL, END_SIGNAL])"
    by (simp add: F_def)
  then have i3: "indexOf F SYNC_SIGNAL (0 + 1) = Some (Suc (length meta))"
    using indexFrom_notin [OF nosync, of 1] by (simp add: indexOf_def)
  have i4: "lastIndexOf F SYNC_SIGNAL (int (length meta + length dat + 4) - 1)
              = Some (length meta + length dat + 3)"
  proof -
    have F: "F = pre' @ SYNC_SIGNAL # [END_SIGNAL]" by (simp add: F_def pre'_def)
    have k: "int (length meta + length dat + 4) - 1 = int (length pre')" by (simp add: pre'_def)
    have "lastIndexOf (pre' @ SYNC_SIGNAL # [END_SIGNAL]) SYNC_SIGNAL
            (int (length meta + length dat + 4) - 1) = Some (length pre')"
      by (rule lastIndexOf_at) (rule k)
    then have "lastIndexOf F SYNC_SIGNAL (int (length meta + length dat + 4) - 1) = Some (length pre')"
      by (simp only: F [symmetric])
    moreover have "length pre' = length meta + length dat + 3" by (simp add: pre'_def)
    ultimately show ?thesis by (simp only: )
  qed
  have sl: "slice F (Suc (length meta) + 1) (length meta + length dat + 3) = dat @ [ck]"
    by (simp add: slice_def F_def)
  have "decode (Some F) =
          (if \<not> verifyChecksum (map colorToIndex (butlast (dat @ [ck])))
                   (colorToIndex (if dat @ [ck] = [] then Undefined else last (dat @ [ck])))
           then Inl ChecksumFailed
           else Inr \<lparr> dtext = binaryToText (colorIndexesToBinary (map colorToIndex (butlast (dat @ [ck])))),
                      checksumValid = verifyChecksum (map colorToIndex (butlast (dat @ [ck])))
                         (colorToIndex (if dat @ [ck] = [] then Undefined else last (dat @ [ck]))),
                      expectedLength = extractMessageLength F,
                      actualLength = length (binaryToText (colorIndexesToBinary
                                        (map colorToIndex (butlast (dat @ [ck]))))),
                      dcolorCount = length F,
                      lengthWarning = (extractMessageLength F \<noteq> None
                           \<and> extractMessageLength F \<noteq> Some (Num (int (length (binaryToText
                                 (colorIndexesToBinary (map colorToIndex (butlast (dat @ [ck]))))))))) \<rparr>)"
    by (simp only: decode_def option.case i0 if_False i1 i2 Let_def i3 i4 sl)
  then show ?thesis
    unfolding F_def [symmetric] using ok by simp
qed

lemma length_concat_bits8:
  "list_all (\<lambda>c. c \<le> 255) us \<Longrightarrow> length (concat (map bits8 us)) = 8 * length us"
  by (induction us) (simp_all add: bits8_length)

lemma concat_bits8_binary: "list_all isBinDigit (concat (map bits8 us))"
  by (induction us) (simp_all add: bits8_binary)

lemma fromCharCode_bits8:
  assumes "c \<le> 255"
  shows "fromCharCode (parseInt2 (padEnd 8 CHR ''0'' (bits8 c))) = c"
proof -
  have l: "length (bits8 c) = 8" using assms by (rule bits8_length)
  then have ne: "bits8 c \<noteq> []" by auto
  have "padEnd 8 CHR ''0'' (bits8 c) = bits8 c" using l by (simp add: padEnd_def)
  moreover have "parseInt2 (bits8 c) = Num (int c)"
    using parseInt2_binary [OF ne bits8_binary] by (simp add: bits8_value)
  ultimately show ?thesis using assms by (simp add: fromCharCode_def)
qed

lemma fromCharCode_zeros:
  assumes "0 < p" and "p \<le> 8"
  shows "fromCharCode (parseInt2 (padEnd 8 CHR ''0'' (replicate p CHR ''0''))) = 0"
proof -
  have "padEnd 8 CHR ''0'' (replicate p CHR ''0'') = replicate 8 CHR ''0''"
    using assms by (simp add: padEnd_def replicate_add [symmetric])
  moreover have "parseInt2 (replicate 8 CHR ''0'') = Num (binValue (replicate 8 CHR ''0''))"
    by (rule parseInt2_binary) (simp_all add: list_all_zeros)
  moreover have "binValue (replicate 8 CHR ''0'') = 0"
    using binValue_zeros [of 8 "[]"] by (simp add: binValue_def)
  ultimately show ?thesis by (simp add: fromCharCode_def)
qed

lemma binaryToText_padded:
  assumes small: "list_all (\<lambda>c. c \<le> 255) us" and p: "p < 8"
  shows "binaryToText (concat (map bits8 us) @ replicate p CHR ''0'')
           = us @ (if p = 0 then [] else [0])"
proof -
  have blocks: "\<forall>b\<in>set (map bits8 us). length b = 8"
    using small by (auto simp: list_all_iff bits8_length)
  have ch: "chunksOf 8 (concat (map bits8 us) @ replicate p CHR ''0'')
          = map bits8 us @ (if replicate p CHR ''0'' = [] then [] else [replicate p CHR ''0''])"
    by (rule chunksOf_blocks) (use blocks p in simp_all)
  have m: "map (\<lambda>byte. fromCharCode (parseInt2 (padEnd 8 CHR ''0'' byte))) (map bits8 us) = us"
    using small by (induction us) (simp_all add: fromCharCode_bits8)
  show ?thesis
  proof (cases "p = 0")
    case True
    then show ?thesis using ch m by (simp add: binaryToText_def)
  next
    case False
    then have "fromCharCode (parseInt2 (padEnd 8 CHR ''0'' (replicate p CHR ''0''))) = 0"
      using p by (intro fromCharCode_zeros) simp_all
    then show ?thesis using False ch m by (simp add: binaryToText_def)
  qed
qed

lemma pad_zero_iff: "((3 - (8 * n) mod 3) mod 3 = 0) = (n mod 3 = (0::nat))"
  by presburger

text \<open>
  C1, as the code has it. For every text whose characters are code points 0..255 and
  whose metadata header holds no SYNC symbol, \<open>decode\<close> of the frame START, metadata
  header, SYNC, data symbols, checksum symbol, SYNC, END (the header of
  \<open>createMetadataHeader\<close> followed by the sequence of \<open>encodeText\<close> without its START)
  returns the text when its length is a multiple of 3, and the text followed by one NUL
  character, the zero-padded last byte, otherwise.
\<close>

theorem decode_canonical_frame:
  assumes small: "list_all (\<lambda>c. c \<le> 255) text"
    and nosync: "SYNC_SIGNAL \<notin> set (createMetadataHeader text)"
  shows "\<exists>d. decode (Some ([START_SIGNAL] @ createMetadataHeader text @ drop 1 (encodeText text)))
               = Inr d
           \<and> dtext d = text @ (if length text mod 3 = 0 then [] else [0])"
proof -
  define B where "B = textToBinary text"
  have B: "B = concat (map bits8 text)"
    unfolding B_def using small by (rule textToBinary_small)
  have binB: "list_all isBinDigit B"
    unfolding B by (rule concat_bits8_binary)
  have lenB: "length B = 8 * length text"
    unfolding B using small by (rule length_concat_bits8)
  define p where "p = (3 - length B mod 3) mod 3"
  from binaryToColorIndexes_binary [OF binB] obtain vs where
    idx: "binaryToColorIndexes B = map Num vs"
    and rng: "list_all (\<lambda>v. 0 \<le> v \<and> v < 8) vs"
    and bin: "colorIndexesToBinary vs = B @ replicate p CHR ''0''"
    unfolding p_def by blast
  define dat where "dat = map colorAt (map Num vs)"
  define ck where "ck = colorAt (calculateChecksum (map Num vs))"
  have frame: "[START_SIGNAL] @ createMetadataHeader text @ drop 1 (encodeText text)
        = [START_SIGNAL] @ createMetadataHeader text @ [SYNC_SIGNAL] @ dat @ [ck, SYNC_SIGNAL, END_SIGNAL]"
    by (simp add: encodeText_def Let_def B_def [symmetric] idx dat_def ck_def)
  note cr = checksum_roundtrip [OF rng]
  have ok: "verifyChecksum (map colorToIndex dat) (colorToIndex ck)"
    unfolding dat_def ck_def by (rule cr(1))
  have ci: "map colorToIndex dat = vs" unfolding dat_def by (rule cr(2))
  from decode_frame [OF nosync ok] obtain d where
    d: "decode (Some ([START_SIGNAL] @ createMetadataHeader text @ [SYNC_SIGNAL] @ dat
                       @ [ck, SYNC_SIGNAL, END_SIGNAL])) = Inr d"
    and t: "dtext d = binaryToText (colorIndexesToBinary (map colorToIndex dat))"
    by blast
  have p8: "p < 8" unfolding p_def by (rule less_trans [OF mod_less_divisor]) simp_all
  have p0: "(p = 0) = (length text mod 3 = 0)"
    unfolding p_def lenB by (rule pad_zero_iff)
  have "dtext d = binaryToText (concat (map bits8 text) @ replicate p CHR ''0'')"
    unfolding t ci bin B ..
  also have "\<dots> = text @ (if p = 0 then [] else [0])"
    using small p8 by (rule binaryToText_padded)
  finally have "dtext d = text @ (if length text mod 3 = 0 then [] else [0])"
    unfolding p0 .
  with d show ?thesis unfolding frame by blast
qed

lemma padStart_6: "padStart 8 CHR ''0'' (toString2 6) = ''00000110''"
  by (simp add: padStart_def toString2_def ev)

lemma binaryToColorIndexes_len6: "binaryToColorIndexes ''00000110'' = [Num 0, Num 1, Num 4]"
  by (simp add: binaryToColorIndexes_def parse_defs ev)

lemma createMetadataHeader_Hello:
  "createMetadataHeader [72, 101, 108, 108, 111, 33]
     = [Color ''#FF0000'', Color ''#00FF00'', Color ''#FF00FF'']"
  by (simp add: createMetadataHeader_def padStart_6 binaryToColorIndexes_len6 colorAt_def
      COLORS_def)

theorem decode_canonical_frame_witness:
  "list_all (\<lambda>c. c \<le> 255) [72, 101, 108, 108, 111, 33 :: nat]
   \<and> SYNC_SIGNAL \<notin> set (createMetadataHeader [72, 101, 108, 108, 111, 33])
   \<and> (\<exists>d. decode (Some ([START_SIGNAL] @ createMetadataHeader [72, 101, 108, 108, 111, 33]
                          @ drop 1 (encodeText [72, 101, 108, 108, 111, 33]))) = Inr d
          \<and> dtext d = [72, 101, 108, 108, 111, 33])
   \<and> list_all (\<lambda>c. c \<le> 255) [72, 105 :: nat]
   \<and> SYNC_SIGNAL \<notin> set (createMetadataHeader [72, 105])
   \<and> (\<exists>d. decode (Some ([START_SIGNAL] @ createMetadataHeader [72, 105]
                          @ drop 1 (encodeText [72, 105]))) = Inr d
          \<and> dtext d = [72, 105, 0])"
  using decode_canonical_frame [of "[72, 101, 108, 108, 111, 33]"]
    decode_canonical_frame [of "[72, 105]"]
  by (simp add: createMetadataHeader_Hello createMetadataHeader_Hi sig_defs)

end
